theory Spec2Isabelle
  imports Main "HOL-Library.Sublist" "HOL-Library.Multiset"
begin

section \<open>The string primitives of the script\<close>

text \<open>
  The script \<^verbatim>\<open>create-az-vm.js\<close> works on strings: command-line tokens, image
  identifiers, passwords and command lines. A string is modelled as a \<^typ>\<open>string\<close>
  (a list of characters). Image identifiers, flag names and the password alphabet are
  ASCII, and no function below looks at a character beyond comparing it with an ASCII
  one, so one \<^typ>\<open>char\<close> stands for one code unit of the JavaScript string.
\<close>

text \<open>\<^verbatim>\<open>s.startsWith(p)\<close>\<close>

definition startsWith :: "string \<Rightarrow> string \<Rightarrow> bool" where
  "startsWith s p = (take (length p) s = p)"

text \<open>\<^verbatim>\<open>s.includes(p)\<close>: some position of \<open>s\<close> starts with \<open>p\<close>.\<close>

fun includes_str :: "string \<Rightarrow> string \<Rightarrow> bool" where
  "includes_str [] p = (p = [])"
| "includes_str (c # cs) p = (startsWith (c # cs) p \<or> includes_str cs p)"

text \<open>
  \<^verbatim>\<open>s.toLowerCase()\<close>: the letters \<open>A\<close> to \<open>Z\<close> go to \<open>a\<close> to \<open>z\<close>, every other
  character stays.
\<close>

definition lowercase :: string where
  "lowercase = ''abcdefghijklmnopqrstuvwxyz''"

definition uppercase :: string where
  "uppercase = ''ABCDEFGHIJKLMNOPQRSTUVWXYZ''"

definition toLowerCase_char :: "char \<Rightarrow> char" where
  "toLowerCase_char c = (case map_of (zip uppercase lowercase) c of Some l \<Rightarrow> l | None \<Rightarrow> c)"

definition toLowerCase :: "string \<Rightarrow> string" where
  "toLowerCase s = map toLowerCase_char s"

text \<open>
  \<^verbatim>\<open>s.split("=")\<close>: the pieces of \<open>s\<close> between the separators; the empty string
  splits into one empty piece.
\<close>

fun split_str :: "string \<Rightarrow> char \<Rightarrow> string list" where
  "split_str [] sep = [[]]"
| "split_str (c # cs) sep =
     (if c = sep then [] # split_str cs sep
      else (case split_str cs sep of
              p # ps \<Rightarrow> (c # p) # ps
            | [] \<Rightarrow> [[c]]))"

text \<open>
  \<^verbatim>\<open>s.slice(-n)\<close>: the last \<open>n\<close> characters of \<open>s\<close>, all of \<open>s\<close> when it is shorter
  (the subtraction on \<^typ>\<open>nat\<close> stops at 0, as the start index of the slice does).
\<close>

definition slice_last :: "nat \<Rightarrow> string \<Rightarrow> string" where
  "slice_last n s = drop (length s - n) s"

text \<open>
  \<^verbatim>\<open>Date.now()\<close> is an integer number of milliseconds; its decimal rendering
  (\<^verbatim>\<open>toString()\<close>, and the interpolation into a template literal) is the digits of
  its absolute value, after a minus sign when it is negative.
\<close>

definition digit_char :: "nat \<Rightarrow> char" where
  "digit_char d = ''0123456789'' ! d"

fun digits_of :: "nat \<Rightarrow> string" where
  "digits_of n = (if n < 10 then [digit_char n] else digits_of (n div 10) @ [digit_char (n mod 10)])"

declare digits_of.simps [simp del]

definition number_toString :: "int \<Rightarrow> string" where
  "number_toString i = (if i < 0 then CHR ''-'' # digits_of (nat (- i)) else digits_of (nat i))"

text \<open>
  \<^verbatim>\<open>s.replace(/c/g, r)\<close> for a pattern that is the single character \<open>c\<close> and a
  replacement text \<open>r\<close> without a replacement pattern: every \<open>c\<close> becomes \<open>r\<close>.
\<close>

definition replace_all :: "char \<Rightarrow> string \<Rightarrow> string \<Rightarrow> string" where
  "replace_all c r s = concat (map (\<lambda>x. if x = c then r else [x]) s)"

text \<open>\<^verbatim>\<open>s.trim()\<close>: the white space at both ends is dropped (here the ASCII white
  space: the output of the command line tool is ASCII).\<close>

definition is_space :: "char \<Rightarrow> bool" where
  "is_space c = (c \<in> set [CHR 0x20, CHR 0x09, CHR 0x0A, CHR 0x0B, CHR 0x0C, CHR 0x0D])"

definition trim :: "string \<Rightarrow> string" where
  "trim s = rev (dropWhile is_space (rev (dropWhile is_space s)))"

section \<open>Values and objects\<close>

text \<open>
  The values the argument record holds: \<^verbatim>\<open>null\<close>, a string, or a value that an object
  literal inherits from \<^verbatim>\<open>Object.prototype\<close> (a method such as \<^verbatim>\<open>toString\<close>, or the
  prototype itself under \<^verbatim>\<open>__proto__\<close>), named by its property.
\<close>

datatype jsval = Null | Str string | Inherited string

datatype error = TypeError string | SyntaxError string | ExecError string

fun message :: "error \<Rightarrow> string" where
  "message (TypeError m) = m"
| "message (SyntaxError m) = m"
| "message (ExecError m) = m"

text \<open>The property names every object literal inherits from \<^verbatim>\<open>Object.prototype\<close>.\<close>

definition object_prototype_props :: "string list" where
  "object_prototype_props =
     [''constructor'', ''__defineGetter__'', ''__defineSetter__'', ''hasOwnProperty'',
      ''__lookupGetter__'', ''__lookupSetter__'', ''isPrototypeOf'', ''propertyIsEnumerable'',
      ''toString'', ''valueOf'', ''__proto__'', ''toLocaleString'']"

type_synonym jsobject = "string \<rightharpoonup> jsval"

text \<open>\<^verbatim>\<open>key in obj\<close>: an own property, or an inherited one.\<close>

definition has_property :: "jsobject \<Rightarrow> string \<Rightarrow> bool" where
  "has_property obj key = (obj key \<noteq> None \<or> key \<in> set object_prototype_props)"

text \<open>
  \<^verbatim>\<open>obj[key]\<close>: the own property, else the inherited one, else \<^verbatim>\<open>undefined\<close>
  (\<open>None\<close>).
\<close>

definition get_property :: "jsobject \<Rightarrow> string \<Rightarrow> jsval option" where
  "get_property obj key =
     (case obj key of
        Some v \<Rightarrow> Some v
      | None \<Rightarrow> if key \<in> set object_prototype_props then Some (Inherited key) else None)"

text \<open>
  \<^verbatim>\<open>obj[key] = value\<close> for a string \<open>value\<close>: an own property is written, but the
  inherited setter of \<^verbatim>\<open>__proto__\<close> ignores a value that is not an object.
\<close>

definition set_property :: "jsobject \<Rightarrow> string \<Rightarrow> string \<Rightarrow> jsobject" where
  "set_property obj key v = (if key = ''__proto__'' then obj else obj(key \<mapsto> Str v))"

text \<open>Truthiness of a value read from an object: \<^verbatim>\<open>undefined\<close>, \<^verbatim>\<open>null\<close> and the
  empty string are falsy.\<close>

fun truthy :: "jsval option \<Rightarrow> bool" where
  "truthy None = False"
| "truthy (Some Null) = False"
| "truthy (Some (Str s)) = (s \<noteq> [])"
| "truthy (Some (Inherited k)) = True"

text \<open>A value interpolated into a template literal.\<close>

fun interpolate :: "jsval option \<Rightarrow> string" where
  "interpolate None = ''undefined''"
| "interpolate (Some Null) = ''null''"
| "interpolate (Some (Str s)) = s"
| "interpolate (Some (Inherited k)) = ''[object]''"

section \<open>Image presets and the operating system of an image\<close>

text \<open>\<^verbatim>\<open>IMAGE_PRESETS\<close>: the own properties of the object literal, in its order.\<close>

definition IMAGE_PRESETS :: "(string \<times> string) list" where
  "IMAGE_PRESETS =
     [(''windows-11'', ''MicrosoftWindowsDesktop:Windows-11:win11-23h2-pro:latest''),
      (''windows-10'', ''MicrosoftWindowsDesktop:Windows-10:win10-22h2-pro:latest''),
      (''windows-server-2022'', ''MicrosoftWindowsServer:WindowsServer:2022-datacenter:latest''),
      (''windows-server-2019'', ''MicrosoftWindowsServer:WindowsServer:2019-datacenter:latest''),
      (''ubuntu'', ''Canonical:0001-com-ubuntu-server-jammy:22_04-lts:latest''),
      (''ubuntu-20'', ''Canonical:0001-com-ubuntu-server-focal:20_04-lts:latest''),
      (''debian'', ''Debian:debian-11:11:latest''),
      (''centos'', ''OpenLogic:CentOS:7_9:latest''),
      (''rhel'', ''RedHat:RHEL:8-lvm:latest''),
      (''suse'', ''SUSE:sles-15-sp3:gen2:latest'')]"

text \<open>The object the literal denotes: its own properties, all strings.\<close>

definition presets_object :: jsobject where
  "presets_object = map_option Str \<circ> map_of IMAGE_PRESETS"

text \<open>
  \<^verbatim>\<open>detectOSType(image)\<close>. The call \<^verbatim>\<open>image.toLowerCase()\<close> throws a
  \<^verbatim>\<open>TypeError\<close> when the argument is not a string.
\<close>

fun detectOSType :: "jsval option \<Rightarrow> error + string" where
  "detectOSType (Some (Str img)) =
     (let imageLower = toLowerCase img in
      if includes_str imageLower ''windows'' \<or> includes_str imageLower ''win''
      then Inr ''windows''
      else Inr ''linux'')"
| "detectOSType v = Inl (TypeError ''image.toLowerCase is not a function'')"

section \<open>The password generator\<close>

text \<open>
  \<^verbatim>\<open>crypto.randomInt(n)\<close> returns an integer from 0 up to, not including, \<open>n\<close>. The
  random source is a stream of raw draws, read front to back; the draw \<open>r\<close> yields
  \<open>r mod n\<close>, so the streams cover every outcome of every call.
\<close>

type_synonym entropy = "nat \<Rightarrow> nat"

definition randomInt :: "nat \<Rightarrow> entropy \<Rightarrow> nat \<times> entropy" where
  "randomInt n e = (e 0 mod n, \<lambda>i. e (Suc i))"

definition password_length :: nat where
  "password_length = 16"

definition digits :: string where
  "digits = ''0123456789''"

definition special :: string where
  "special = ''!@#$%^&*()_+-=[]{}|;:,.<>?''"

definition allChars :: string where
  "allChars = lowercase @ uppercase @ digits @ special"

text \<open>The loop that fills the array up to \<open>length\<close> characters, \<open>i\<close> its counter.\<close>

function fill_loop :: "nat \<Rightarrow> string \<Rightarrow> entropy \<Rightarrow> string \<times> entropy" where
  "fill_loop i password e =
     (if i < password_length
      then (let (j, e') = randomInt (length allChars) e
            in fill_loop (Suc i) (password @ [allChars ! j]) e')
      else (password, e))"
  by pat_completeness auto
termination
  by (relation "measure (\<lambda>(i, password, e). password_length - i)") auto

declare fill_loop.simps [simp del]

text \<open>The comparator \<^verbatim>\<open>() => crypto.randomInt(3) - 1\<close>: it ignores its arguments.\<close>

definition comparator :: "entropy \<Rightarrow> int \<times> entropy" where
  "comparator e = (let (r, e') = randomInt 3 e in (int r - 1, e'))"

text \<open>
  \<^verbatim>\<open>Array.prototype.sort\<close> with that comparator. The language leaves the sequence of
  comparator calls to the engine; the model is an insertion sort, which places an
  element before the first one the comparator does not put it after. With a comparator
  that answers at random, each element can land at any position.
\<close>

fun sort_insert :: "char \<Rightarrow> string \<Rightarrow> entropy \<Rightarrow> string \<times> entropy" where
  "sort_insert x [] e = ([x], e)"
| "sort_insert x (y # ys) e =
     (let (c, e') = comparator e in
      if c \<le> 0 then (x # y # ys, e')
      else (let (zs, e'') = sort_insert x ys e' in (y # zs, e'')))"

fun array_sort :: "string \<Rightarrow> entropy \<Rightarrow> string \<times> entropy" where
  "array_sort [] e = ([], e)"
| "array_sort (x # xs) e = (let (ys, e') = array_sort xs e in sort_insert x ys e')"

text \<open>The array before it is shuffled: one character of each class, then the fill.\<close>

definition password_array :: "entropy \<Rightarrow> string \<times> entropy" where
  "password_array e =
     (let (i1, e1) = randomInt (length lowercase) e;
          (i2, e2) = randomInt (length uppercase) e1;
          (i3, e3) = randomInt (length digits) e2;
          (i4, e4) = randomInt (length special) e3;
          password = [lowercase ! i1, uppercase ! i2, digits ! i3, special ! i4]
      in fill_loop (length password) password e4)"

definition generateSecurePassword :: "entropy \<Rightarrow> string" where
  "generateSecurePassword e =
     (let (password, e') = password_array e in fst (array_sort password e'))"

section \<open>Argument resolution\<close>

text \<open>The record \<^verbatim>\<open>args\<close> as \<^verbatim>\<open>parseArgs\<close> first builds it; \<open>now\<close> is the clock.\<close>

definition initial_args :: "int \<Rightarrow> jsobject" where
  "initial_args now =
     [''location'' \<mapsto> Str ''northeurope'',
      ''name'' \<mapsto> Null,
      ''size'' \<mapsto> Str ''Standard_D2s_v3'',
      ''image'' \<mapsto> Str ''windows-11'',
      ''resourceGroup'' \<mapsto> Str (''vm-rg-'' @ number_toString now),
      ''username'' \<mapsto> Str ''azureuser'',
      ''password'' \<mapsto> Null,
      ''os'' \<mapsto> Null]"

text \<open>
  The body of the \<^verbatim>\<open>forEach\<close>: one command-line token. \<open>key\<close> is the first piece of
  the split and \<open>value\<close> the second (\<^verbatim>\<open>undefined\<close> when there is none); later pieces
  are dropped by the destructuring.
\<close>

definition apply_arg :: "jsobject \<Rightarrow> string \<Rightarrow> jsobject" where
  "apply_arg args arg =
     (if startsWith arg ''--'' then
        (case split_str (drop 2 arg) CHR ''='' of
           key # value # rest \<Rightarrow>
             if has_property args key \<and> value \<noteq> [] then set_property args key value else args
         | _ \<Rightarrow> args)
      else args)"

text \<open>
  The preset lookup of \<^verbatim>\<open>parseArgs\<close>: when \<^verbatim>\<open>IMAGE_PRESETS[args.image]\<close> is
  truthy, it becomes the image.
\<close>

definition resolve_preset :: "jsobject \<Rightarrow> jsobject" where
  "resolve_preset args =
     (case get_property presets_object (interpolate (args ''image'')) of
        Some v \<Rightarrow> (if truthy (Some v) then args(''image'' \<mapsto> v) else args)
      | None \<Rightarrow> args)"

text \<open>The name \<^verbatim>\<open>parseArgs\<close> makes up for the operating system \<open>os\<close> at the clock
  reading \<open>now\<close>.\<close>

definition default_name :: "string \<Rightarrow> int \<Rightarrow> string" where
  "default_name os now =
     (if os = ''windows'' then ''win-'' @ slice_last 8 (number_toString now)
      else ''linux-vm-'' @ number_toString now)"

text \<open>
  \<^verbatim>\<open>parseArgs()\<close>. \<open>argv\<close> is \<^verbatim>\<open>process.argv\<close>, \<open>now1\<close> and \<open>now2\<close> are the two
  readings of the clock (for the resource group and for the name) and \<open>e\<close> is the
  random source. The result is the record, or the error that \<open>detectOSType\<close> throws.
\<close>

definition parseArgs :: "int \<Rightarrow> int \<Rightarrow> entropy \<Rightarrow> string list \<Rightarrow> error + jsobject" where
  "parseArgs now1 now2 e argv =
     (let args = foldl apply_arg (initial_args now1) (drop 2 argv);
          args = resolve_preset args
      in case detectOSType (args ''image'') of
           Inl err \<Rightarrow> Inl err
         | Inr os \<Rightarrow>
             (let args = args(''os'' \<mapsto> Str os);
                  args = (if \<not> truthy (args ''name'')
                          then args(''name'' \<mapsto> Str (default_name os now2)) else args);
                  args = (if \<not> truthy (args ''password'')
                          then args(''password'' \<mapsto> Str (generateSecurePassword e)) else args)
              in Inr args))"

section \<open>The calls to the Azure command line\<close>

text \<open>
  \<^verbatim>\<open>execSync(command)\<close> either returns the standard output of the command, or throws
  an error that carries the standard output so far and a message. The command line
  tool is a function from the command to that outcome.
\<close>

datatype outcome = Exited string | Failed string string

type_synonym cli = "string \<Rightarrow> outcome"

text \<open>
  What a run does that a user or the provider sees: the commands it runs and the lines
  it writes with \<^verbatim>\<open>console.error\<close>, in order. (The progress lines written with
  \<^verbatim>\<open>console.log\<close> are presentation and are left out.)
\<close>

datatype event = Call string | ErrorLine string

text \<open>
  \<^verbatim>\<open>exec(command, silent)\<close>; \<open>silent\<close> only switches a progress line off. A failed
  command that wrote to its standard output is answered with that output.
\<close>

definition exec :: "cli \<Rightarrow> string \<Rightarrow> (error + string) \<times> event list" where
  "exec az command =
     (case az command of
        Exited out \<Rightarrow> (Inr (trim out), [Call command])
      | Failed out msg \<Rightarrow>
          (if out \<noteq> [] then Inr (trim out) else Inl (ExecError msg), [Call command]))"

text \<open>
  Parsed JSON. \<^verbatim>\<open>JSON.parse\<close> itself is the engine's; it is a parameter \<open>parse\<close> of
  the functions below, \<open>None\<close> standing for its \<^verbatim>\<open>SyntaxError\<close>. The script only tests
  a number for being zero, so a number is an integer here.
\<close>

datatype json = JNull | JBool bool | JNumber int | JString string
  | JArray "json list" | JObject "(string \<times> json) list"

fun json_truthy :: "json \<Rightarrow> bool" where
  "json_truthy JNull = False"
| "json_truthy (JBool b) = b"
| "json_truthy (JNumber n) = (n \<noteq> 0)"
| "json_truthy (JString s) = (s \<noteq> [])"
| "json_truthy (JArray xs) = True"
| "json_truthy (JObject kvs) = True"

text \<open>
  \<^verbatim>\<open>v.key\<close> for a key no prototype defines: a \<^verbatim>\<open>TypeError\<close> on \<^verbatim>\<open>null\<close> and
  \<^verbatim>\<open>undefined\<close> (\<open>None\<close>), the member of an object, \<^verbatim>\<open>undefined\<close> otherwise.
\<close>

fun get_member :: "json option \<Rightarrow> string \<Rightarrow> error + json option" where
  "get_member None key = Inl (TypeError ''Cannot read properties of undefined'')"
| "get_member (Some JNull) key = Inl (TypeError ''Cannot read properties of null'')"
| "get_member (Some (JObject kvs)) key = Inr (map_of kvs key)"
| "get_member (Some v) key = Inr None"

definition checkAzureCli :: "cli \<Rightarrow> bool \<times> event list" where
  "checkAzureCli az =
     (case exec az ''az --version'' of
        (Inr out, t) \<Rightarrow> (True, t)
      | (Inl err, t) \<Rightarrow> (False, t @ [ErrorLine ''Azure CLI is not installed.'']))"

definition checkAzureLogin :: "cli \<Rightarrow> (string \<Rightarrow> json option) \<Rightarrow> bool \<times> event list" where
  "checkAzureLogin az parse =
     (let not_logged_in = ErrorLine ''Not logged in to Azure.'' in
      case exec az ''az account show'' of
        (Inl err, t) \<Rightarrow> (False, t @ [not_logged_in])
      | (Inr account, t) \<Rightarrow>
          (case parse account of
             None \<Rightarrow> (False, t @ [not_logged_in])
           | Some accountData \<Rightarrow>
               (case get_member (Some accountData) ''user'' of
                  Inl err \<Rightarrow> (False, t @ [not_logged_in])
                | Inr user \<Rightarrow>
                    (case get_member user ''name'' of
                       Inl err \<Rightarrow> (False, t @ [not_logged_in])
                     | Inr name \<Rightarrow> (True, t)))))"

definition createResourceGroup :: "cli \<Rightarrow> jsobject \<Rightarrow> bool \<times> event list" where
  "createResourceGroup az args =
     (case exec az (''az group create --name '' @ interpolate (args ''resourceGroup'')
                      @ '' --location '' @ interpolate (args ''location'')) of
        (Inr out, t) \<Rightarrow> (True, t)
      | (Inl err, t) \<Rightarrow>
          (False, t @ [ErrorLine (''Failed to create resource group: '' @ message err)]))"

text \<open>
  The password as \<^verbatim>\<open>createVM\<close> escapes it: first every double quote, then every
  dollar sign, each replaced by itself after a backslash. (The replacement text of the
  second call ends in the dollar sign, which there stands for itself.)
\<close>

definition escapedPassword :: "string \<Rightarrow> string" where
  "escapedPassword password =
     replace_all CHR ''$'' [CHR 0x5C, CHR ''$'']
       (replace_all CHR 0x22 [CHR 0x5C, CHR 0x22] password)"

text \<open>
  The command line of \<^verbatim>\<open>createVM\<close>. In the template literal each line ends in a
  backslash, which joins it to the next, so the indentation of the next line follows
  the space before the backslash. (\<open>createVM\<close> is called on a record that
  \<open>parseArgs\<close> returned, where the password is a string.)
\<close>

definition vm_create_command :: "jsobject \<Rightarrow> string" where
  "vm_create_command args =
     (let nsgRule = (if args ''os'' = Some (Str ''windows'') then ''RDP'' else ''SSH'') in
      ''az vm create ''
      @ ''    --resource-group '' @ interpolate (args ''resourceGroup'') @ '' ''
      @ ''    --name '' @ interpolate (args ''name'') @ '' ''
      @ ''    --image '' @ interpolate (args ''image'') @ '' ''
      @ ''    --admin-username '' @ interpolate (args ''username'') @ '' ''
      @ ''    --admin-password '' @ [CHR 0x22]
          @ escapedPassword (interpolate (args ''password'')) @ [CHR 0x22] @ '' ''
      @ ''    --size '' @ interpolate (args ''size'') @ '' ''
      @ ''    --public-ip-sku Standard ''
      @ ''    --nsg-rule '' @ nsgRule)"

text \<open>\<^verbatim>\<open>createVM(args)\<close>: the parsed output of the command, or \<^verbatim>\<open>null\<close>.\<close>

definition createVM :: "cli \<Rightarrow> (string \<Rightarrow> json option) \<Rightarrow> jsobject \<Rightarrow> json \<times> event list" where
  "createVM az parse args =
     (case exec az (vm_create_command args) of
        (Inl err, t) \<Rightarrow> (JNull, t @ [ErrorLine (''Failed to create VM: '' @ message err)])
      | (Inr out, t) \<Rightarrow>
          (case parse out of
             None \<Rightarrow> (JNull, t @ [ErrorLine ''Failed to create VM: Unexpected token in JSON''])
           | Some vmData \<Rightarrow> (vmData, t)))"

definition cleanup_command :: "jsobject \<Rightarrow> string" where
  "cleanup_command args =
     ''az group delete --name '' @ interpolate (args ''resourceGroup'') @ '' --yes --no-wait''"

text \<open>
  \<^verbatim>\<open>main()\<close>: the exit code the run ends with (that of \<^verbatim>\<open>process.exit\<close>, or 0 when
  \<open>main\<close> returns), or the error it throws, and what it did. Showing the connection
  details only prints.
\<close>

definition main ::
  "cli \<Rightarrow> (string \<Rightarrow> json option) \<Rightarrow> int \<Rightarrow> int \<Rightarrow> entropy \<Rightarrow> string list
     \<Rightarrow> (error + int) \<times> event list" where
  "main az parse now1 now2 e argv =
     (let (cli_ok, t1) = checkAzureCli az in
      if \<not> cli_ok then (Inr 1, t1) else
      let (login_ok, t2) = checkAzureLogin az parse in
      if \<not> login_ok then (Inr 1, t1 @ t2) else
      case parseArgs now1 now2 e argv of
        Inl err \<Rightarrow> (Inl err, t1 @ t2)
      | Inr args \<Rightarrow>
          (let (rg_ok, t3) = createResourceGroup az args in
           if \<not> rg_ok then (Inr 1, t1 @ t2 @ t3) else
           let (vmData, t4) = createVM az parse args in
           if \<not> json_truthy vmData then
             (case exec az (cleanup_command args) of
                (Inl err, t5) \<Rightarrow> (Inl err, t1 @ t2 @ t3 @ t4 @ t5)
              | (Inr out, t5) \<Rightarrow> (Inr 1, t1 @ t2 @ t3 @ t4 @ t5))
           else (Inr 0, t1 @ t2 @ t3 @ t4)))"

text \<open>
  The script as a whole: \<^verbatim>\<open>--help\<close> anywhere on the command line ends the run with
  status 0 before \<open>main\<close> starts; an error \<open>main\<close> throws is reported and ends the run
  with status 1.
\<close>

definition program ::
  "cli \<Rightarrow> (string \<Rightarrow> json option) \<Rightarrow> int \<Rightarrow> int \<Rightarrow> entropy \<Rightarrow> string list
     \<Rightarrow> int \<times> event list" where
  "program az parse now1 now2 e argv =
     (if ''--help'' \<in> set argv then (0, [])
      else case main az parse now1 now2 e argv of
             (Inr code, t) \<Rightarrow> (code, t)
           | (Inl err, t) \<Rightarrow> (1, t @ [ErrorLine (''Unexpected error: '' @ message err)]))"

section \<open>The vocabulary of the specification\<close>

text \<open>
  The definitions of this section follow the words of the specification, not the
  code; the theorems compare the code with them.
\<close>

text \<open>
  Escaping for a double-quoted shell argument, as the specification words it: every
  double quote and every dollar sign is written after a backslash, all else as it is.
\<close>

definition backslash_escaped :: "string \<Rightarrow> string" where
  "backslash_escaped s =
     concat (map (\<lambda>c. if c = CHR 0x22 \<or> c = CHR ''$'' then [CHR 0x5C, c] else [c]) s)"

text \<open>
  The complexity policy of a generated password, as the specification words it: 16
  characters, among them a lowercase letter, an uppercase letter, a digit and a
  character of the special set.
\<close>

definition meets_policy :: "string \<Rightarrow> bool" where
  "meets_policy pw =
     (length pw = 16
      \<and> (\<exists>c \<in> set pw. c \<in> set lowercase)
      \<and> (\<exists>c \<in> set pw. c \<in> set uppercase)
      \<and> (\<exists>c \<in> set pw. c \<in> set digits)
      \<and> (\<exists>c \<in> set pw. c \<in> set special))"

text \<open>
  Two characters are the same letter when they are equal or one is the uppercase form
  of the other; a string contains a pattern case-insensitively when a stretch of it
  matches the pattern letter by letter.
\<close>

definition same_letter :: "char \<Rightarrow> char \<Rightarrow> bool" where
  "same_letter a b =
     (a = b \<or> (a, b) \<in> set (zip uppercase lowercase) \<or> (b, a) \<in> set (zip uppercase lowercase))"

definition contains_ignoring_case :: "string \<Rightarrow> string \<Rightarrow> bool" where
  "contains_ignoring_case s p = (\<exists>m. sublist m s \<and> list_all2 same_letter m p)"

text \<open>
  The seven keys the specification lists, and what the loop reads off one token: a
  token \<^verbatim>\<open>--key=value\<close> with a value that is not empty supplies \<open>value\<close> for
  \<open>key\<close>.
\<close>

definition recognized_keys :: "string list" where
  "recognized_keys =
     [''location'', ''name'', ''size'', ''image'', ''resourceGroup'', ''username'', ''password'']"

definition flag_of :: "string \<Rightarrow> (string \<times> string) option" where
  "flag_of arg =
     (if startsWith arg ''--'' then
        (case split_str (drop 2 arg) CHR ''='' of
           key # value # rest \<Rightarrow> if value \<noteq> [] then Some (key, value) else None
         | _ \<Rightarrow> None)
      else None)"

definition supplied :: "string \<Rightarrow> string list \<Rightarrow> bool" where
  "supplied key argv =
     list_ex (\<lambda>arg. case flag_of arg of Some (k, v) \<Rightarrow> k = key | None \<Rightarrow> False) (drop 2 argv)"

text \<open>A string that is not empty, once written, stays one.\<close>

definition nonempty_string :: "jsval option \<Rightarrow> bool" where
  "nonempty_string v = (\<exists>s. s \<noteq> [] \<and> v = Some (Str s))"

text \<open>
  A cleanup call is a call of \<^verbatim>\<open>az group delete\<close>. What the specification calls a
  failure of an external call is a command that exits with an error (\<open>Failed\<close>); it
  is a silent failure when the command had written nothing to its standard output.
  \<open>printed\<close> is what a command wrote to its standard output, and the output is
  unusable when, trimmed, it is not JSON or is a falsy JSON value.
\<close>

fun is_cleanup :: "event \<Rightarrow> bool" where
  "is_cleanup (Call c) = startsWith c ''az group delete''"
| "is_cleanup (ErrorLine l) = False"

fun silent_failure :: "outcome \<Rightarrow> bool" where
  "silent_failure (Exited out) = False"
| "silent_failure (Failed out msg) = (out = [])"

fun printed :: "outcome \<Rightarrow> string" where
  "printed (Exited out) = out"
| "printed (Failed out msg) = out"

definition unusable_output :: "(string \<Rightarrow> json option) \<Rightarrow> outcome \<Rightarrow> bool" where
  "unusable_output parse oc =
     (case parse (trim (printed oc)) of None \<Rightarrow> True | Some v \<Rightarrow> \<not> json_truthy v)"

text \<open>
  A command line tool and a parser for the examples: the account query and the VM
  creation answer with texts that parse to an account and to a VM; \<open>failing\<close> lists
  the commands that fail (by the start of the command) with what they had written to
  their standard output.
\<close>

definition example_parse :: "string \<Rightarrow> json option" where
  "example_parse s =
     (if s = ''ACCOUNT'' then Some (JObject [(''user'', JObject [(''name'', JString ''me'')])])
      else if s = ''VM'' then Some (JObject [(''publicIpAddress'', JString ''10.0.0.4'')])
      else None)"

definition example_cli :: "(string \<times> string) list \<Rightarrow> cli" where
  "example_cli failing command =
     (case find (\<lambda>(start, out). startsWith command start) failing of
        Some (start, out) \<Rightarrow> Failed out ''Command failed''
      | None \<Rightarrow>
          if command = ''az account show'' then Exited ''ACCOUNT''
          else if startsWith command ''az vm create'' then Exited ''VM''
          else Exited [])"

text \<open>The lines a run wrote with \<^verbatim>\<open>console.error\<close>.\<close>

fun error_lines :: "event list \<Rightarrow> string list" where
  "error_lines [] = []"
| "error_lines (Call c # t) = error_lines t"
| "error_lines (ErrorLine l # t) = l # error_lines t"

text \<open>The command line of the examples, and the arguments it resolves to.\<close>

definition example_argv :: "string list" where
  "example_argv =
     [''node'', ''create-az-vm.js'', ''--name=vm1'', ''--resourceGroup=rg1'', ''--password=pw1'']"

definition example_args :: jsobject where
  "example_args =
     (initial_args 1700000000000)
       (''name'' \<mapsto> Str ''vm1'', ''resourceGroup'' \<mapsto> Str ''rg1'', ''password'' \<mapsto> Str ''pw1'',
        ''image'' \<mapsto> Str ''MicrosoftWindowsDesktop:Windows-11:win11-23h2-pro:latest'',
        ''os'' \<mapsto> Str ''windows'')"

text \<open>A token the specification counts as recognized: one that supplies a value for
  one of the seven keys.\<close>

definition recognized :: "string \<Rightarrow> bool" where
  "recognized arg =
     (case flag_of arg of Some (k, v) \<Rightarrow> k \<in> set recognized_keys | None \<Rightarrow> False)"

section \<open>Credential escaping\<close>

lemma escapedPassword_eq: "escapedPassword pw = backslash_escaped pw"
  by (induction pw) (simp_all add: escapedPassword_def replace_all_def backslash_escaped_def)

text \<open>
  Claim C5. Whatever the password, the command line of the VM creation holds, between
  double quotes after \<^verbatim>\<open>--admin-password\<close>, the password with every double quote and
  every dollar sign preceded by a backslash; the password \<^verbatim>\<open>a"b$c\<close> is rendered as
  \<^verbatim>\<open>a\"b\$c\<close>.
\<close>

theorem password_escaping:
  assumes "args ''password'' = Some (Str pw)"
  shows "escapedPassword pw = backslash_escaped pw
    \<and> (\<exists>before after.
           vm_create_command args =
             before @ ''--admin-password '' @ [CHR 0x22] @ backslash_escaped pw @ [CHR 0x22] @ after)
    \<and> escapedPassword [CHR ''a'', CHR 0x22, CHR ''b'', CHR ''$'', CHR ''c'']
           = [CHR ''a'', CHR 0x5C, CHR 0x22, CHR ''b'', CHR 0x5C, CHR ''$'', CHR ''c'']"
proof -
  let ?before = "''az vm create ''
      @ ''    --resource-group '' @ interpolate (args ''resourceGroup'') @ '' ''
      @ ''    --name '' @ interpolate (args ''name'') @ '' ''
      @ ''    --image '' @ interpolate (args ''image'') @ '' ''
      @ ''    --admin-username '' @ interpolate (args ''username'') @ '' ''
      @ ''    ''"
  let ?after = "'' '' @ ''    --size '' @ interpolate (args ''size'') @ '' ''
      @ ''    --public-ip-sku Standard ''
      @ ''    --nsg-rule '' @ (if args ''os'' = Some (Str ''windows'') then ''RDP'' else ''SSH'')"
  have "vm_create_command args =
          ?before @ ''--admin-password '' @ [CHR 0x22] @ backslash_escaped pw @ [CHR 0x22] @ ?after"
    using assms by (simp add: vm_create_command_def escapedPassword_eq)
  then have "\<exists>before after.
           vm_create_command args =
             before @ ''--admin-password '' @ [CHR 0x22] @ backslash_escaped pw @ [CHR 0x22] @ after"
    by blast
  moreover have "escapedPassword [CHR ''a'', CHR 0x22, CHR ''b'', CHR ''$'', CHR ''c'']
           = [CHR ''a'', CHR 0x5C, CHR 0x22, CHR ''b'', CHR 0x5C, CHR ''$'', CHR ''c'']"
    by (simp add: escapedPassword_def replace_all_def)
  ultimately show ?thesis
    by (simp add: escapedPassword_eq)
qed

theorem password_escaping_witness:
  "escapedPassword [CHR ''p'', CHR ''$'', CHR 0x22] = [CHR ''p'', CHR 0x5C, CHR ''$'', CHR 0x5C, CHR 0x22]
   \<and> (\<exists>before after.
          vm_create_command [''password'' \<mapsto> Str [CHR ''p'', CHR ''$'', CHR 0x22]] =
            before @ ''--admin-password '' @ [CHR 0x22]
              @ [CHR ''p'', CHR 0x5C, CHR ''$'', CHR 0x5C, CHR 0x22] @ [CHR 0x22] @ after)"
  using password_escaping [of "[''password'' \<mapsto> Str [CHR ''p'', CHR ''$'', CHR 0x22]]"
      "[CHR ''p'', CHR ''$'', CHR 0x22]"]
  by (simp add: backslash_escaped_def)

section \<open>The password generator\<close>

lemma randomInt_less: "0 < n \<Longrightarrow> fst (randomInt n e) < n"
  by (simp add: randomInt_def)

text \<open>Sorting only rearranges, whatever the comparator answers.\<close>

lemma mset_sort_insert: "mset (fst (sort_insert x ys e)) = add_mset x (mset ys)"
proof (induction ys arbitrary: e)
  case Nil
  show ?case by simp
next
  case (Cons y ys)
  obtain c e' where c: "comparator e = (c, e')" by (cases "comparator e")
  obtain zs e'' where r: "sort_insert x ys e' = (zs, e'')" by (cases "sort_insert x ys e'")
  with Cons.IH [of e'] have "mset zs = add_mset x (mset ys)" by simp
  with c r show ?case by simp
qed

lemma mset_array_sort: "mset (fst (array_sort xs e)) = mset xs"
proof (induction xs arbitrary: e)
  case Nil
  show ?case by simp
next
  case (Cons x xs)
  obtain ys e' where r: "array_sort xs e = (ys, e')" by (cases "array_sort xs e")
  with Cons.IH [of e] have "mset ys = mset xs" by simp
  with r show ?case by (simp add: mset_sort_insert)
qed

text \<open>The fill loop appends one character for each index from \<open>i\<close> up to 16.\<close>

lemma fill_loop_length:
  "length (fst (fill_loop i password e)) = length password + (password_length - i)"
proof (induction i password e rule: fill_loop.induct)
  case (1 i password e)
  show ?case
  proof (cases "i < password_length")
    case True
    obtain j e' where r: "randomInt (length allChars) e = (j, e')"
      by (cases "randomInt (length allChars) e")
    from True r "1.IH" [of "(j, e')" j e'] show ?thesis
      by (subst fill_loop.simps) simp
  next
    case False
    then show ?thesis by (subst fill_loop.simps) simp
  qed
qed

lemma fill_loop_keeps: "set password \<subseteq> set (fst (fill_loop i password e))"
proof (induction i password e rule: fill_loop.induct)
  case (1 i password e)
  show ?case
  proof (cases "i < password_length")
    case True
    obtain j e' where r: "randomInt (length allChars) e = (j, e')"
      by (cases "randomInt (length allChars) e")
    from True r "1.IH" [of "(j, e')" j e'] show ?thesis
      by (subst fill_loop.simps) auto
  next
    case False
    then show ?thesis by (subst fill_loop.simps) simp
  qed
qed

lemma password_array_policy: "meets_policy (fst (password_array e))"
proof -
  obtain i1 e1 where r1: "randomInt (length lowercase) e = (i1, e1)"
    by (cases "randomInt (length lowercase) e")
  obtain i2 e2 where r2: "randomInt (length uppercase) e1 = (i2, e2)"
    by (cases "randomInt (length uppercase) e1")
  obtain i3 e3 where r3: "randomInt (length digits) e2 = (i3, e3)"
    by (cases "randomInt (length digits) e2")
  obtain i4 e4 where r4: "randomInt (length special) e3 = (i4, e4)"
    by (cases "randomInt (length special) e3")
  let ?seed = "[lowercase ! i1, uppercase ! i2, digits ! i3, special ! i4]"
  have arr: "password_array e = fill_loop (length ?seed) ?seed e4"
    using r1 r2 r3 r4 by (simp add: password_array_def)
  have "i1 < length lowercase"
    using randomInt_less [of "length lowercase" e] r1 by (simp add: lowercase_def)
  then have l: "lowercase ! i1 \<in> set lowercase" by (rule nth_mem)
  have "i2 < length uppercase"
    using randomInt_less [of "length uppercase" e1] r2 by (simp add: uppercase_def)
  then have u: "uppercase ! i2 \<in> set uppercase" by (rule nth_mem)
  have "i3 < length digits"
    using randomInt_less [of "length digits" e2] r3 by (simp add: digits_def)
  then have d: "digits ! i3 \<in> set digits" by (rule nth_mem)
  have "i4 < length special"
    using randomInt_less [of "length special" e3] r4 by (simp add: special_def)
  then have s: "special ! i4 \<in> set special" by (rule nth_mem)
  have sub: "set ?seed \<subseteq> set (fst (password_array e))"
    unfolding arr by (rule fill_loop_keeps)
  have len: "length (fst (password_array e)) = 16"
    unfolding arr by (simp add: fill_loop_length password_length_def)
  from sub l u d s len show ?thesis
    unfolding meets_policy_def by auto
qed

lemma meets_policy_mset: "mset pw' = mset pw \<Longrightarrow> meets_policy pw \<Longrightarrow> meets_policy pw'"
  unfolding meets_policy_def by (metis mset_eq_setD size_mset)

lemma generateSecurePassword_example:
  "generateSecurePassword (\<lambda>i. i * 7 + 3) = ''d7KF>TM70+%?|ngu''"
  by code_simp

text \<open>
  Claim C1. For every random source, the generated password has 16 characters and
  holds a lowercase letter, an uppercase letter, a digit and a special character.
  The same is true of every rearrangement of the array the generator shuffles, so the
  property does not depend on how the engine sorts.
\<close>

theorem generated_password_policy:
  "meets_policy (generateSecurePassword e)
   \<and> (\<forall>pw. mset pw = mset (fst (password_array e)) \<longrightarrow> meets_policy pw)"
proof -
  obtain password e' where r: "password_array e = (password, e')"
    by (cases "password_array e")
  have "mset (generateSecurePassword e) = mset (fst (password_array e))"
    using r by (simp add: generateSecurePassword_def mset_array_sort)
  then show ?thesis
    using password_array_policy [of e] meets_policy_mset by blast
qed

theorem generated_password_policy_witness:
  "generateSecurePassword (\<lambda>i. i * 7 + 3) = ''d7KF>TM70+%?|ngu''
   \<and> meets_policy ''d7KF>TM70+%?|ngu''
   \<and> meets_policy (rev (fst (password_array (\<lambda>i. i * 7 + 3))))"
  using generated_password_policy [of "\<lambda>i. i * 7 + 3"] generateSecurePassword_example
  by simp

section \<open>The tokens of the command line\<close>

lemma split_str_not_Nil: "split_str s sep \<noteq> []"
  by (induction s) (auto split: list.splits)

lemma split_str_no_sep: "sep \<notin> set a \<Longrightarrow> split_str a sep = [a]"
  by (induction a) auto

lemma split_str_append:
  "sep \<notin> set a \<Longrightarrow> split_str (a @ sep # b) sep = a # split_str b sep"
  by (induction a) auto

lemma apply_arg_flag_of:
  "apply_arg args arg =
     (case flag_of arg of
        Some (k, v) \<Rightarrow> if has_property args k then set_property args k v else args
      | None \<Rightarrow> args)"
  by (auto simp: apply_arg_def flag_of_def split: list.splits)

lemma apply_arg_other:
  "(\<And>v. flag_of arg \<noteq> Some (k, v)) \<Longrightarrow> apply_arg args arg k = args k"
  by (auto simp: apply_arg_flag_of set_property_def split: option.splits)

lemma apply_arg_keeps_property: "args k \<noteq> None \<Longrightarrow> apply_arg args arg k \<noteq> None"
  by (auto simp: apply_arg_flag_of set_property_def split: option.splits)

lemma foldl_apply_arg_keeps_property:
  "args k \<noteq> None \<Longrightarrow> foldl apply_arg args toks k \<noteq> None"
proof (induction toks arbitrary: args)
  case Nil
  then show ?case by simp
next
  case (Cons x xs)
  from Cons.prems have "apply_arg args x k \<noteq> None" by (rule apply_arg_keeps_property)
  then have "foldl apply_arg (apply_arg args x) xs k \<noteq> None" by (rule Cons.IH)
  then show ?case by simp
qed

lemma foldl_apply_arg_other:
  "(\<And>arg v. arg \<in> set toks \<Longrightarrow> flag_of arg \<noteq> Some (k, v))
     \<Longrightarrow> foldl apply_arg args toks k = args k"
  by (induction toks arbitrary: args) (simp_all add: apply_arg_other)

lemma apply_arg_nonempty:
  "nonempty_string (args k) \<Longrightarrow> nonempty_string (apply_arg args arg k)"
  by (auto simp: apply_arg_flag_of flag_of_def set_property_def nonempty_string_def
           split: option.splits list.splits if_splits)

lemma foldl_apply_arg_nonempty:
  "nonempty_string (args k) \<Longrightarrow> nonempty_string (foldl apply_arg args toks k)"
  by (induction toks arbitrary: args) (simp_all add: apply_arg_nonempty)

lemma flag_of_nonempty: "flag_of arg = Some (k, v) \<Longrightarrow> v \<noteq> []"
  by (auto simp: flag_of_def split: list.splits if_splits)

lemma apply_arg_supplied:
  assumes "flag_of arg = Some (k, v)" "args k \<noteq> None" "k \<noteq> ''__proto__''"
  shows "apply_arg args arg k = Some (Str v)"
  using assms by (simp add: apply_arg_flag_of has_property_def set_property_def)

lemma foldl_apply_arg_supplied:
  assumes "\<exists>arg \<in> set toks. \<exists>v. flag_of arg = Some (k, v)" "args k \<noteq> None" "k \<noteq> ''__proto__''"
  shows "nonempty_string (foldl apply_arg args toks k)"
  using assms
proof (induction toks arbitrary: args)
  case Nil
  then show ?case by simp
next
  case (Cons x xs)
  show ?case
  proof (cases "\<exists>v. flag_of x = Some (k, v)")
    case True
    then obtain v where v: "flag_of x = Some (k, v)" by blast
    then have "apply_arg args x k = Some (Str v)"
      using Cons.prems by (simp add: apply_arg_supplied)
    moreover have "v \<noteq> []" using v by (rule flag_of_nonempty)
    ultimately have "nonempty_string (apply_arg args x k)"
      by (simp add: nonempty_string_def)
    then show ?thesis by (simp add: foldl_apply_arg_nonempty)
  next
    case False
    with Cons.prems have "\<exists>arg \<in> set xs. \<exists>v. flag_of arg = Some (k, v)" by auto
    moreover have "apply_arg args x k \<noteq> None"
      using Cons.prems by (simp add: apply_arg_keeps_property)
    ultimately show ?thesis using Cons.IH Cons.prems by simp
  qed
qed

lemma detectOSType_Inr: "detectOSType v = Inr os \<Longrightarrow> \<exists>img. v = Some (Str img)"
  by (cases v rule: detectOSType.cases) simp_all

lemma parseArgs_Inr:
  assumes "parseArgs now1 now2 e argv = Inr args"
  obtains img os where
    "resolve_preset (foldl apply_arg (initial_args now1) (drop 2 argv)) ''image'' = Some (Str img)"
    "detectOSType (Some (Str img)) = Inr os"
    "args ''image'' = Some (Str img)"
    "args ''os'' = Some (Str os)"
proof -
  let ?a = "resolve_preset (foldl apply_arg (initial_args now1) (drop 2 argv))"
  from assms obtain os where os: "detectOSType (?a ''image'') = Inr os"
    by (auto simp: parseArgs_def Let_def split: sum.splits)
  then obtain img where img: "?a ''image'' = Some (Str img)"
    using detectOSType_Inr by blast
  from assms os have "args ''image'' = ?a ''image''" "args ''os'' = Some (Str os)"
    by (auto simp: parseArgs_def Let_def)
  with os img that show thesis by simp
qed

lemmas parse_eval =
  Let_def apply_arg_def startsWith_def initial_args_def has_property_def set_property_def
  resolve_preset_def get_property_def presets_object_def IMAGE_PRESETS_def
  object_prototype_props_def

lemmas lower_eval =
  toLowerCase_def toLowerCase_char_def uppercase_def lowercase_def startsWith_def

lemma parseArgs_returns:
  assumes "resolve_preset (foldl apply_arg (initial_args now1) (drop 2 argv)) ''image''
             = Some (Str img)"
  shows "\<exists>args. parseArgs now1 now2 e argv = Inr args \<and> args ''image'' = Some (Str img)"
  using assms by (auto simp: parseArgs_def Let_def split: sum.splits)

lemma supplied_iff:
  "supplied key argv = (\<exists>arg \<in> set (drop 2 argv). \<exists>v. flag_of arg = Some (key, v))"
proof -
  have "(case flag_of arg of Some (k, v) \<Rightarrow> k = key | None \<Rightarrow> False)
          = (\<exists>v. flag_of arg = Some (key, v))" for arg
    by (cases "flag_of arg") auto
  then show ?thesis by (simp add: supplied_def list_ex_iff)
qed

lemma resolve_preset_other: "k \<noteq> ''image'' \<Longrightarrow> resolve_preset args k = args k"
  by (simp add: resolve_preset_def split: option.splits)

lemma parseArgs_fields:
  assumes "parseArgs now1 now2 e argv = Inr args"
  obtains os where
    "detectOSType (resolve_preset (foldl apply_arg (initial_args now1) (drop 2 argv)) ''image'')
       = Inr os"
    "args ''os'' = Some (Str os)"
    "args ''name'' =
       (if truthy (foldl apply_arg (initial_args now1) (drop 2 argv) ''name'')
        then foldl apply_arg (initial_args now1) (drop 2 argv) ''name''
        else Some (Str (default_name os now2)))"
    "args ''password'' =
       (if truthy (foldl apply_arg (initial_args now1) (drop 2 argv) ''password'')
        then foldl apply_arg (initial_args now1) (drop 2 argv) ''password''
        else Some (Str (generateSecurePassword e)))"
    "\<forall>k. k \<notin> {''os'', ''name'', ''password''} \<longrightarrow>
       args k = resolve_preset (foldl apply_arg (initial_args now1) (drop 2 argv)) k"
proof -
  let ?a = "resolve_preset (foldl apply_arg (initial_args now1) (drop 2 argv))"
  from assms obtain os where os: "detectOSType (?a ''image'') = Inr os"
    by (auto simp: parseArgs_def Let_def split: sum.splits)
  let ?b = "?a(''os'' \<mapsto> Str os)"
  let ?c = "if \<not> truthy (?b ''name'') then ?b(''name'' \<mapsto> Str (default_name os now2)) else ?b"
  let ?d = "if \<not> truthy (?c ''password'')
            then ?c(''password'' \<mapsto> Str (generateSecurePassword e)) else ?c"
  from assms os have args: "args = ?d"
    by (simp add: parseArgs_def Let_def)
  have n: "?a ''name'' = foldl apply_arg (initial_args now1) (drop 2 argv) ''name''"
    and p: "?a ''password'' = foldl apply_arg (initial_args now1) (drop 2 argv) ''password''"
    by (simp_all add: resolve_preset_other)
  have 1: "args ''os'' = Some (Str os)" unfolding args by simp
  have 2: "args ''name'' = (if truthy (?a ''name'') then ?a ''name''
                            else Some (Str (default_name os now2)))"
    unfolding args by simp
  have 3: "args ''password'' = (if truthy (?a ''password'') then ?a ''password''
                            else Some (Str (generateSecurePassword e)))"
    unfolding args by simp
  have 4: "\<forall>k. k \<notin> {''os'', ''name'', ''password''} \<longrightarrow> args k = ?a k"
    unfolding args by simp
  from os 1 2 3 4 n p that show thesis by metis
qed

section \<open>The operating system of the resolved image\<close>

lemma startsWith_prefix: "startsWith s p = prefix p s"
proof
  assume "startsWith s p"
  then have "p = take (length p) s" by (simp add: startsWith_def)
  then show "prefix p s" by (metis take_is_prefix)
next
  assume "prefix p s"
  then show "startsWith s p" by (auto simp: startsWith_def prefix_def)
qed

lemma includes_str_sublist: "includes_str s p = sublist p s"
  by (induction s) (simp_all add: startsWith_prefix sublist_Cons_right)

lemma sublist_map_iff: "sublist p (map f s) = (\<exists>m. sublist m s \<and> map f m = p)"
proof
  assume "sublist p (map f s)"
  then show "\<exists>m. sublist m s \<and> map f m = p"
    by (auto dest: sublist_map_rightE)
next
  assume "\<exists>m. sublist m s \<and> map f m = p"
  then show "sublist p (map f s)"
    by (auto intro: map_mono_sublist)
qed

lemma distinct_uppercase: "distinct uppercase"
  by (simp add: uppercase_def)

lemma length_alphabets: "length uppercase = length lowercase"
  by (simp add: uppercase_def lowercase_def)

lemma toLowerCase_char_same_letter:
  assumes "b \<notin> set uppercase"
  shows "(toLowerCase_char a = b) = same_letter a b"
proof -
  let ?Z = "zip uppercase lowercase"
  have d: "distinct (map fst ?Z)"
    using distinct_uppercase length_alphabets by simp
  have nb: "(b, a) \<notin> set ?Z" using assms by (auto dest: set_zip_leftD)
  show ?thesis
  proof (cases "map_of ?Z a")
    case None
    then have "a \<notin> fst ` set ?Z" by (simp add: map_of_eq_None_iff)
    then have "(a, b) \<notin> set ?Z" by force
    with None nb show ?thesis by (simp add: toLowerCase_char_def same_letter_def)
  next
    case (Some l)
    then have al: "(a, l) \<in> set ?Z" using d by (simp add: map_of_eq_Some_iff)
    then have "a \<in> set uppercase" by (auto dest: set_zip_leftD)
    with assms have ab: "a \<noteq> b" by auto
    have "((a, b) \<in> set ?Z) = (l = b)"
      using map_of_is_SomeI [OF d, of a b] Some al by auto
    with Some nb ab show ?thesis by (simp add: toLowerCase_char_def same_letter_def)
  qed
qed

lemma map_toLowerCase_same_letter:
  assumes "set p \<inter> set uppercase = {}"
  shows "(map toLowerCase_char m = p) = list_all2 same_letter m p"
proof -
  have "(map toLowerCase_char m = p) = list_all2 (\<lambda>a b. toLowerCase_char a = b) m p"
    by (simp add: list_all2_conv_all_nth list_eq_iff_nth_eq)
  also have "\<dots> = list_all2 same_letter m p"
  proof (rule list.rel_cong)
    fix a b
    assume "b \<in> set p"
    with assms have "b \<notin> set uppercase" by auto
    then show "(toLowerCase_char a = b) = same_letter a b"
      by (rule toLowerCase_char_same_letter)
  qed simp_all
  finally show ?thesis .
qed

lemma includes_toLowerCase:
  assumes "set p \<inter> set uppercase = {}"
  shows "includes_str (toLowerCase s) p = contains_ignoring_case s p"
  by (simp add: includes_str_sublist toLowerCase_def sublist_map_iff contains_ignoring_case_def
      map_toLowerCase_same_letter [OF assms])

lemma detectOSType_Str:
  "detectOSType (Some (Str img)) =
     Inr (if contains_ignoring_case img ''windows'' \<or> contains_ignoring_case img ''win''
          then ''windows'' else ''linux'')"
proof -
  have "set ''windows'' \<inter> set uppercase = {}" "set ''win'' \<inter> set uppercase = {}"
    by (simp_all add: uppercase_def)
  then show ?thesis by (simp add: includes_toLowerCase Let_def)
qed

lemma contains_ignoring_case_code:
  "set p \<inter> set uppercase = {} \<Longrightarrow> contains_ignoring_case s p = includes_str (toLowerCase s) p"
  by (simp add: includes_toLowerCase)

text \<open>
  Claim C2. For every image string, \<open>detectOSType\<close> answers \<open>windows\<close> if the string
  contains \<open>windows\<close> or \<open>win\<close> case-insensitively, and \<open>linux\<close> otherwise; and when
  argument resolution returns, its \<open>os\<close> field is that function of its resolved \<open>image\<close>
  field, whatever the tokens were.
\<close>

theorem os_family_of_image:
  "detectOSType (Some (Str img)) =
     Inr (if contains_ignoring_case img ''windows'' \<or> contains_ignoring_case img ''win''
          then ''windows'' else ''linux'')
   \<and> (parseArgs now1 now2 e argv = Inr args \<longrightarrow>
        (\<exists>resolved. args ''image'' = Some (Str resolved)
           \<and> args ''os'' = Some (Str (if contains_ignoring_case resolved ''windows''
                                          \<or> contains_ignoring_case resolved ''win''
                                        then ''windows'' else ''linux''))))"
proof -
  have "\<exists>resolved. args ''image'' = Some (Str resolved)
           \<and> args ''os'' = Some (Str (if contains_ignoring_case resolved ''windows''
                                          \<or> contains_ignoring_case resolved ''win''
                                        then ''windows'' else ''linux''))"
    if "parseArgs now1 now2 e argv = Inr args"
  proof -
    from that obtain resolved os where
      os: "detectOSType (Some (Str resolved)) = Inr os"
      and a: "args ''image'' = Some (Str resolved)" "args ''os'' = Some (Str os)"
      by (rule parseArgs_Inr)
    from os have "os = (if contains_ignoring_case resolved ''windows''
                          \<or> contains_ignoring_case resolved ''win''
                        then ''windows'' else ''linux'')"
      by (simp only: detectOSType_Str sum.inject)
    with a show ?thesis by blast
  qed
  then show ?thesis using detectOSType_Str by blast
qed

theorem os_family_of_image_witness:
  "\<exists>args. parseArgs 1700000000000 1700000000123 (\<lambda>i. i)
      [''node'', ''create-az-vm.js'', ''--image=ubuntu'', ''--os=windows''] = Inr args
    \<and> args ''image'' = Some (Str ''Canonical:0001-com-ubuntu-server-jammy:22_04-lts:latest'')
    \<and> args ''os'' = Some (Str ''linux'')"
proof -
  let ?argv = "[''node'', ''create-az-vm.js'', ''--image=ubuntu'', ''--os=windows'']"
  let ?img = "''Canonical:0001-com-ubuntu-server-jammy:22_04-lts:latest''"
  have "resolve_preset (foldl apply_arg (initial_args 1700000000000) (drop 2 ?argv)) ''image''
          = Some (Str ?img)"
    by (simp add: parse_eval)
  then obtain args where
    run: "parseArgs 1700000000000 1700000000123 (\<lambda>i. i) ?argv = Inr args"
    and img: "args ''image'' = Some (Str ?img)"
    using parseArgs_returns by blast
  have no: "\<not> contains_ignoring_case ?img ''windows''" "\<not> contains_ignoring_case ?img ''win''"
    by (simp_all add: contains_ignoring_case_code lower_eval)
  from os_family_of_image [of "''x''" 1700000000000 1700000000123 "\<lambda>i. i" ?argv args]
    run img no
  have "args ''os'' = Some (Str ''linux'')" by simp
  with run img show ?thesis by blast
qed

section \<open>The generated name\<close>

lemma digits_of_length: "10 ^ k \<le> n \<Longrightarrow> k < length (digits_of n)"
proof (induction k arbitrary: n)
  case 0
  show ?case by (subst digits_of.simps) simp
next
  case (Suc k)
  then have "10 * 10 ^ k \<le> n" by simp
  then have "10 ^ k \<le> n div 10" by simp
  then have "k < length (digits_of (n div 10))" by (rule Suc.IH)
  moreover have "\<not> n < 10"
  proof
    assume "n < 10"
    moreover have "(1::nat) \<le> 10 ^ k" by simp
    ultimately show False using \<open>10 * 10 ^ k \<le> n\<close> by simp
  qed
  ultimately show ?case by (subst digits_of.simps) simp
qed

lemma windows_name_length: "length (''win-'' @ slice_last 8 s) \<le> 12"
  by (simp add: slice_last_def)

lemma unsupplied_name:
  assumes "\<not> supplied ''name'' argv"
  shows "foldl apply_arg (initial_args now1) (drop 2 argv) ''name'' = Some Null"
proof -
  have "foldl apply_arg (initial_args now1) (drop 2 argv) ''name'' = initial_args now1 ''name''"
    using assms by (intro foldl_apply_arg_other) (auto simp: supplied_iff)
  then show ?thesis by (simp add: initial_args_def)
qed

lemma detectOSType_values: "detectOSType v = Inr os \<Longrightarrow> os = ''windows'' \<or> os = ''linux''"
  by (cases v rule: detectOSType.cases) (auto simp: Let_def split: if_splits)

text \<open>
  Claim C4. When argument resolution returns and no token supplied a name, the name
  is generated from the inferred operating system: for \<open>windows\<close> it is \<open>win-\<close>
  followed by the last eight characters of the clock reading, at most 15 characters
  long; for \<open>linux\<close> it is \<open>linux-vm-\<close> followed by the whole clock reading, which is
  longer than 15 characters for every reading from 1000000 on.
\<close>

theorem generated_name_length:
  assumes "parseArgs now1 now2 e argv = Inr args" and "\<not> supplied ''name'' argv"
  shows "(args ''os'' = Some (Str ''windows'') \<longrightarrow>
            args ''name'' = Some (Str (''win-'' @ slice_last 8 (number_toString now2)))
            \<and> length (''win-'' @ slice_last 8 (number_toString now2)) \<le> 15)
       \<and> (args ''os'' \<noteq> Some (Str ''windows'') \<longrightarrow>
            args ''os'' = Some (Str ''linux'')
            \<and> args ''name'' = Some (Str (''linux-vm-'' @ number_toString now2))
            \<and> (1000000 \<le> now2 \<longrightarrow> 15 < length (''linux-vm-'' @ number_toString now2)))"
proof -
  from assms(1) obtain os where
    os: "detectOSType (resolve_preset (foldl apply_arg (initial_args now1) (drop 2 argv)) ''image'')
           = Inr os"
    and aos: "args ''os'' = Some (Str os)"
    and name: "args ''name'' =
       (if truthy (foldl apply_arg (initial_args now1) (drop 2 argv) ''name'')
        then foldl apply_arg (initial_args now1) (drop 2 argv) ''name''
        else Some (Str (default_name os now2)))"
    by (rule parseArgs_fields)
  from name assms(2) have n: "args ''name'' = Some (Str (default_name os now2))"
    by (simp add: unsupplied_name)
  from os have cases: "os = ''windows'' \<or> os = ''linux''" by (rule detectOSType_values)
  have long: "15 < length (''linux-vm-'' @ number_toString now2)" if "1000000 \<le> now2"
  proof -
    from that have "10 ^ 6 \<le> nat now2" by simp
    then have "6 < length (digits_of (nat now2))" by (rule digits_of_length)
    with that show ?thesis by (simp add: number_toString_def)
  qed
  have short: "length (''win-'' @ slice_last 8 (number_toString now2)) \<le> 15"
    using windows_name_length [of "number_toString now2"] by simp
  from aos n cases long short show ?thesis
    by (auto simp: default_name_def)
qed

theorem generated_name_length_witness:
  "(\<exists>args. parseArgs 1700000000000 1700000000123 (\<lambda>i. i) [''node'', ''create-az-vm.js'']
             = Inr args
      \<and> args ''os'' = Some (Str ''windows'')
      \<and> args ''name'' = Some (Str ''win-00000123''))
   \<and> (\<exists>args. parseArgs 1700000000000 1700000000123 (\<lambda>i. i)
             [''node'', ''create-az-vm.js'', ''--image=debian''] = Inr args
      \<and> args ''os'' = Some (Str ''linux'')
      \<and> args ''name'' = Some (Str ''linux-vm-1700000000123'')
      \<and> 15 < length ''linux-vm-1700000000123'')"
proof -
  let ?argv = "[''node'', ''create-az-vm.js'']"
  let ?argv' = "[''node'', ''create-az-vm.js'', ''--image=debian'']"
  have "resolve_preset (foldl apply_arg (initial_args 1700000000000) (drop 2 ?argv)) ''image''
          = Some (Str ''MicrosoftWindowsDesktop:Windows-11:win11-23h2-pro:latest'')"
    by (simp add: parse_eval)
  then obtain args where
    run: "parseArgs 1700000000000 1700000000123 (\<lambda>i. i) ?argv = Inr args"
    using parseArgs_returns by blast
  from run obtain os where
    "detectOSType (resolve_preset (foldl apply_arg (initial_args 1700000000000) (drop 2 ?argv))
       ''image'') = Inr os" "args ''os'' = Some (Str os)"
    by (rule parseArgs_fields)
  then have os: "args ''os'' = Some (Str ''windows'')"
    by (simp add: parse_eval lower_eval)
  have ns: "\<not> supplied ''name'' ?argv" by (simp add: supplied_def)
  have "slice_last 8 (number_toString 1700000000123) = ''00000123''"
    by (simp add: slice_last_def number_toString_def digits_of.simps digit_char_def)
  with generated_name_length [OF run ns] os
  have "args ''name'' = Some (Str ''win-00000123'')" by simp
  with run os have windows: "\<exists>args. parseArgs 1700000000000 1700000000123 (\<lambda>i. i) ?argv = Inr args
      \<and> args ''os'' = Some (Str ''windows'')
      \<and> args ''name'' = Some (Str ''win-00000123'')" by blast
  have "resolve_preset (foldl apply_arg (initial_args 1700000000000) (drop 2 ?argv')) ''image''
          = Some (Str ''Debian:debian-11:11:latest'')"
    by (simp add: parse_eval)
  then obtain args' where
    run': "parseArgs 1700000000000 1700000000123 (\<lambda>i. i) ?argv' = Inr args'"
    using parseArgs_returns by blast
  from run' obtain os' where
    "detectOSType (resolve_preset (foldl apply_arg (initial_args 1700000000000) (drop 2 ?argv'))
       ''image'') = Inr os'" "args' ''os'' = Some (Str os')"
    by (rule parseArgs_fields)
  then have os': "args' ''os'' = Some (Str ''linux'')"
    by (simp add: parse_eval lower_eval)
  have ns': "\<not> supplied ''name'' ?argv'"
    by (simp add: supplied_def flag_of_def startsWith_def)
  have "number_toString 1700000000123 = ''1700000000123''"
    by (simp add: number_toString_def digits_of.simps digit_char_def)
  with generated_name_length [OF run' ns'] os'
  have "args' ''name'' = Some (Str ''linux-vm-1700000000123'')
        \<and> 15 < length ''linux-vm-1700000000123''" by simp
  with run' os' have "\<exists>args. parseArgs 1700000000000 1700000000123 (\<lambda>i. i) ?argv' = Inr args
      \<and> args ''os'' = Some (Str ''linux'')
      \<and> args ''name'' = Some (Str ''linux-vm-1700000000123'')
      \<and> 15 < length ''linux-vm-1700000000123''" by blast
  with windows show ?thesis by blast
qed

section \<open>A value with a second equals sign\<close>

lemma arg_form:
  assumes "CHR ''='' \<notin> set key" "CHR ''='' \<notin> set v1"
  shows "split_str (key @ ''='' @ v1 @ ''='' @ v2) CHR ''='' = key # v1 # split_str v2 CHR ''=''"
  using assms by (simp add: split_str_append)

lemma flag_of_form:
  assumes "CHR ''='' \<notin> set key" "CHR ''='' \<notin> set v1"
  shows "flag_of (''--'' @ key @ ''='' @ v1 @ ''='' @ v2) = (if v1 = [] then None else Some (key, v1))"
  using arg_form [OF assms, of v2] by (simp add: flag_of_def startsWith_def)

lemma recognized_key_facts:
  assumes "key \<in> set recognized_keys"
  shows "CHR ''='' \<notin> set key" "key \<noteq> ''__proto__''" "initial_args now key \<noteq> None"
  using assms by (auto simp: recognized_keys_def initial_args_def)

text \<open>
  Claim C10, as amended. At every point of the loop over the tokens, a token
  \<^verbatim>\<open>--key=v1=v2\<close> with a recognized key and a part \<open>v1\<close> that is not empty sets the
  field to \<open>v1\<close> alone, whatever \<open>v2\<close> is; when \<open>v1\<close> is empty the token changes
  nothing. The password given as \<^verbatim>\<open>--password=a=b\<close> resolves to \<open>a\<close>.
\<close>

theorem value_cut_at_second_equals:
  assumes "key \<in> set recognized_keys" and "CHR ''='' \<notin> set v1"
  shows "(v1 \<noteq> [] \<longrightarrow>
            apply_arg (foldl apply_arg (initial_args now) toks) (''--'' @ key @ ''='' @ v1 @ ''='' @ v2)
              = (foldl apply_arg (initial_args now) toks)(key \<mapsto> Str v1))
       \<and> (v1 = [] \<longrightarrow>
            apply_arg (foldl apply_arg (initial_args now) toks) (''--'' @ key @ ''='' @ v1 @ ''='' @ v2)
              = foldl apply_arg (initial_args now) toks)
       \<and> (\<exists>args. parseArgs now now2 e [''node'', ''create-az-vm.js'', ''--password=a=b''] = Inr args
                 \<and> args ''password'' = Some (Str ''a''))"
proof -
  let ?args = "foldl apply_arg (initial_args now) toks"
  have k: "CHR ''='' \<notin> set key" "key \<noteq> ''__proto__''" "initial_args now key \<noteq> None"
    using assms(1) by (rule recognized_key_facts)+
  then have "?args key \<noteq> None" by (simp add: foldl_apply_arg_keeps_property)
  then have has: "has_property ?args key" by (simp add: has_property_def)
  have f: "flag_of (''--'' @ key @ ''='' @ v1 @ ''='' @ v2) = (if v1 = [] then None else Some (key, v1))"
    using k(1) assms(2) by (rule flag_of_form)
  have 1: "v1 \<noteq> [] \<longrightarrow> apply_arg ?args (''--'' @ key @ ''='' @ v1 @ ''='' @ v2) = ?args(key \<mapsto> Str v1)"
    using f has k(2) by (simp add: apply_arg_flag_of set_property_def)
  have 2: "v1 = [] \<longrightarrow> apply_arg ?args (''--'' @ key @ ''='' @ v1 @ ''='' @ v2) = ?args"
    using f by (auto simp: apply_arg_flag_of)
  have "\<exists>args. parseArgs now now2 e [''node'', ''create-az-vm.js'', ''--password=a=b''] = Inr args
                 \<and> args ''password'' = Some (Str ''a'')"
    by (simp add: parseArgs_def parse_eval lower_eval)
  with 1 2 show ?thesis by blast
qed

theorem value_cut_at_second_equals_witness:
  "apply_arg (foldl apply_arg (initial_args 1700000000000) [''--size=Standard_B2s''])
       (''--'' @ ''location'' @ ''='' @ ''uk'' @ ''='' @ ''south'')
     = (foldl apply_arg (initial_args 1700000000000) [''--size=Standard_B2s''])
         (''location'' \<mapsto> Str ''uk'')
   \<and> apply_arg (foldl apply_arg (initial_args 1700000000000) [''--size=Standard_B2s''])
       (''--'' @ ''location'' @ ''='' @ [] @ ''='' @ ''south'')
     = foldl apply_arg (initial_args 1700000000000) [''--size=Standard_B2s'']"
  using value_cut_at_second_equals [of "''location''" "''uk''" 1700000000000
      "[''--size=Standard_B2s'']" "''south''"]
    value_cut_at_second_equals [of "''location''" "[]" 1700000000000
      "[''--size=Standard_B2s'']" "''south''"]
  by (simp add: recognized_keys_def)

text \<open>
  The claim as it was stated fails where \<open>v1\<close> is empty: the token
  \<^verbatim>\<open>--password==b\<close> does not set the password to the empty string, it leaves the
  field \<^verbatim>\<open>null\<close> (and the password is generated afterwards).
\<close>

theorem empty_value_counterexample:
  "apply_arg (initial_args 1700000000000) ''--password==b'' ''password'' = Some Null
   \<and> apply_arg (initial_args 1700000000000) ''--password==b'' ''password'' \<noteq> Some (Str [])"
  by (simp add: parse_eval)

section \<open>What argument resolution depends on\<close>

text \<open>
  \<open>parseArgs\<close> reads the clock and the random source besides the tokens; it takes no
  command line tool and returns no event, so it runs no command. The lemmas below
  compare two runs on the same tokens.
\<close>

lemma apply_arg_pointwise: "A k = B k \<Longrightarrow> apply_arg A arg k = apply_arg B arg k"
  by (auto simp: apply_arg_flag_of has_property_def set_property_def split: option.splits)

lemma foldl_apply_arg_pointwise:
  "A k = B k \<Longrightarrow> foldl apply_arg A toks k = foldl apply_arg B toks k"
proof (induction toks arbitrary: A B)
  case Nil
  then show ?case by simp
next
  case (Cons x xs)
  from Cons.prems have "apply_arg A x k = apply_arg B x k" by (rule apply_arg_pointwise)
  then have "foldl apply_arg (apply_arg A x) xs k = foldl apply_arg (apply_arg B x) xs k"
    by (rule Cons.IH)
  then show ?case by simp
qed

lemma foldl_apply_arg_supplied_agree:
  assumes "\<exists>arg \<in> set toks. \<exists>v. flag_of arg = Some (k, v)"
    and "A k \<noteq> None" and "B k \<noteq> None" and "k \<noteq> ''__proto__''"
  shows "foldl apply_arg A toks k = foldl apply_arg B toks k"
  using assms
proof (induction toks arbitrary: A B)
  case Nil
  then show ?case by simp
next
  case (Cons x xs)
  show ?case
  proof (cases "\<exists>v. flag_of x = Some (k, v)")
    case True
    then obtain v where v: "flag_of x = Some (k, v)" by blast
    with Cons.prems have "apply_arg A x k = Some (Str v)" "apply_arg B x k = Some (Str v)"
      by (simp_all add: apply_arg_supplied)
    then have "apply_arg A x k = apply_arg B x k" by simp
    then have "foldl apply_arg (apply_arg A x) xs k = foldl apply_arg (apply_arg B x) xs k"
      by (rule foldl_apply_arg_pointwise)
    then show ?thesis by simp
  next
    case False
    with Cons.prems have "\<exists>arg \<in> set xs. \<exists>v. flag_of arg = Some (k, v)" by auto
    moreover have "apply_arg A x k \<noteq> None" "apply_arg B x k \<noteq> None"
      using Cons.prems by (simp_all add: apply_arg_keeps_property)
    ultimately have "foldl apply_arg (apply_arg A x) xs k = foldl apply_arg (apply_arg B x) xs k"
      using Cons.prems(4) by (intro Cons.IH)
    then show ?thesis by simp
  qed
qed

text \<open>The records two runs build from the same tokens.\<close>

lemma loop_agree:
  assumes "k \<noteq> ''resourceGroup'' \<or> supplied k argv"
  shows "foldl apply_arg (initial_args now1) (drop 2 argv) k
           = foldl apply_arg (initial_args now1') (drop 2 argv) k"
proof (cases "k = ''resourceGroup''")
  case True
  with assms have "\<exists>arg \<in> set (drop 2 argv). \<exists>v. flag_of arg = Some (k, v)"
    by (simp add: supplied_iff)
  moreover have "initial_args now1 k \<noteq> None" "initial_args now1' k \<noteq> None" "k \<noteq> ''__proto__''"
    using True by (simp_all add: initial_args_def)
  ultimately show ?thesis by (rule foldl_apply_arg_supplied_agree)
next
  case False
  then have "initial_args now1 k = initial_args now1' k" by (simp add: initial_args_def)
  then show ?thesis by (rule foldl_apply_arg_pointwise)
qed

lemma resolve_preset_pointwise:
  assumes "A ''image'' = B ''image''" and "A k = B k"
  shows "resolve_preset A k = resolve_preset B k"
  using assms by (simp add: resolve_preset_def split: option.splits)

lemma resolved_agree:
  assumes "k \<noteq> ''resourceGroup'' \<or> supplied k argv"
  shows "resolve_preset (foldl apply_arg (initial_args now1) (drop 2 argv)) k
           = resolve_preset (foldl apply_arg (initial_args now1') (drop 2 argv)) k"
proof (rule resolve_preset_pointwise)
  show "foldl apply_arg (initial_args now1) (drop 2 argv) ''image''
          = foldl apply_arg (initial_args now1') (drop 2 argv) ''image''"
    by (rule loop_agree) simp
  show "foldl apply_arg (initial_args now1) (drop 2 argv) k
          = foldl apply_arg (initial_args now1') (drop 2 argv) k"
    using assms by (rule loop_agree)
qed

lemma supplied_truthy:
  assumes "supplied k argv" and "k \<in> set recognized_keys"
  shows "truthy (foldl apply_arg (initial_args now1) (drop 2 argv) k)"
proof -
  have "initial_args now1 k \<noteq> None" "k \<noteq> ''__proto__''"
    using assms(2) by (auto simp: recognized_keys_def initial_args_def)
  with assms(1) have "nonempty_string (foldl apply_arg (initial_args now1) (drop 2 argv) k)"
    by (intro foldl_apply_arg_supplied) (simp_all add: supplied_iff)
  then show ?thesis by (auto simp: nonempty_string_def)
qed

lemma parseArgs_Inl_iff:
  "(parseArgs now1 now2 e argv = Inl err) =
     (detectOSType (resolve_preset (foldl apply_arg (initial_args now1) (drop 2 argv)) ''image'')
        = Inl err)"
  by (auto simp: parseArgs_def Let_def split: sum.splits)

lemma fields_agree:
  assumes run: "parseArgs now1 now2 e argv = Inr args"
    and run': "parseArgs now1' now2' e' argv = Inr args'"
    and k: "k \<notin> {''resourceGroup'', ''name'', ''password''} \<or> supplied k argv"
  shows "args k = args' k"
proof -
  let ?l = "foldl apply_arg (initial_args now1) (drop 2 argv)"
  let ?l' = "foldl apply_arg (initial_args now1') (drop 2 argv)"
  have img: "resolve_preset ?l ''image'' = resolve_preset ?l' ''image''"
    by (rule resolved_agree) simp
  from run obtain os where
    os: "detectOSType (resolve_preset ?l ''image'') = Inr os"
    and a1: "args ''os'' = Some (Str os)"
    and a2: "args ''name'' = (if truthy (?l ''name'') then ?l ''name''
                             else Some (Str (default_name os now2)))"
    and a3: "args ''password'' = (if truthy (?l ''password'') then ?l ''password''
                             else Some (Str (generateSecurePassword e)))"
    and a4: "\<forall>k. k \<notin> {''os'', ''name'', ''password''} \<longrightarrow> args k = resolve_preset ?l k"
    by (rule parseArgs_fields)
  from run' obtain os' where
    os': "detectOSType (resolve_preset ?l' ''image'') = Inr os'"
    and b1: "args' ''os'' = Some (Str os')"
    and b2: "args' ''name'' = (if truthy (?l' ''name'') then ?l' ''name''
                             else Some (Str (default_name os' now2')))"
    and b3: "args' ''password'' = (if truthy (?l' ''password'') then ?l' ''password''
                             else Some (Str (generateSecurePassword e')))"
    and b4: "\<forall>k. k \<notin> {''os'', ''name'', ''password''} \<longrightarrow> args' k = resolve_preset ?l' k"
    by (rule parseArgs_fields)
  from os os' img have same_os: "os = os'" by simp
  consider (os) "k = ''os''" | (name) "k = ''name''" | (password) "k = ''password''"
    | (other) "k \<notin> {''os'', ''name'', ''password''}" by blast
  then show ?thesis
  proof cases
    case os
    with a1 b1 same_os show ?thesis by simp
  next
    case name
    with k have s: "supplied ''name'' argv" by simp
    then have "truthy (?l ''name'')" "truthy (?l' ''name'')"
      by (simp_all add: supplied_truthy recognized_keys_def)
    moreover have "?l ''name'' = ?l' ''name''" by (rule loop_agree) simp
    ultimately show ?thesis using name a2 b2 by simp
  next
    case password
    with k have s: "supplied ''password'' argv" by simp
    then have "truthy (?l ''password'')" "truthy (?l' ''password'')"
      by (simp_all add: supplied_truthy recognized_keys_def)
    moreover have "?l ''password'' = ?l' ''password''" by (rule loop_agree) simp
    ultimately show ?thesis using password a3 b3 by simp
  next
    case other
    from other k have "k \<noteq> ''resourceGroup'' \<or> supplied k argv" by auto
    then have "resolve_preset ?l k = resolve_preset ?l' k" by (rule resolved_agree)
    with other a4 b4 show ?thesis by simp
  qed
qed

lemma all_supplied_equal:
  assumes "supplied ''name'' argv" "supplied ''resourceGroup'' argv" "supplied ''password'' argv"
  shows "parseArgs now1 now2 e argv = parseArgs now1' now2' e' argv"
proof (cases "parseArgs now1 now2 e argv")
  case (Inl err)
  then have "detectOSType (resolve_preset (foldl apply_arg (initial_args now1) (drop 2 argv))
               ''image'') = Inl err"
    by (simp add: parseArgs_Inl_iff)
  moreover have "resolve_preset (foldl apply_arg (initial_args now1) (drop 2 argv)) ''image''
      = resolve_preset (foldl apply_arg (initial_args now1') (drop 2 argv)) ''image''"
    by (rule resolved_agree) simp
  ultimately have "parseArgs now1' now2' e' argv = Inl err"
    by (simp add: parseArgs_Inl_iff)
  with Inl show ?thesis by simp
next
  case (Inr args)
  show ?thesis
  proof (cases "parseArgs now1' now2' e' argv")
    case (Inl err)
    then have "detectOSType (resolve_preset (foldl apply_arg (initial_args now1') (drop 2 argv))
                 ''image'') = Inl err"
      by (simp add: parseArgs_Inl_iff)
    moreover have "resolve_preset (foldl apply_arg (initial_args now1) (drop 2 argv)) ''image''
        = resolve_preset (foldl apply_arg (initial_args now1') (drop 2 argv)) ''image''"
      by (rule resolved_agree) simp
    ultimately have "parseArgs now1 now2 e argv = Inl err"
      by (simp add: parseArgs_Inl_iff)
    with Inr show ?thesis by simp
  next
    case (Inr args')
    have "args k = args' k" for k
      using \<open>parseArgs now1 now2 e argv = Inr args\<close> Inr
    proof (rule fields_agree)
      show "k \<notin> {''resourceGroup'', ''name'', ''password''} \<or> supplied k argv"
        using assms by auto
    qed
    then have "args = args'" by (rule ext)
    with \<open>parseArgs now1 now2 e argv = Inr args\<close> Inr show ?thesis by simp
  qed
qed

lemma default_run:
  "\<exists>args. parseArgs now1 now2 e [''node'', ''create-az-vm.js''] = Inr args
     \<and> args ''resourceGroup'' = Some (Str (''vm-rg-'' @ number_toString now1))
     \<and> args ''location'' = Some (Str ''northeurope'')"
proof -
  let ?argv = "[''node'', ''create-az-vm.js'']"
  have "resolve_preset (foldl apply_arg (initial_args now1) (drop 2 ?argv)) ''image''
          = Some (Str ''MicrosoftWindowsDesktop:Windows-11:win11-23h2-pro:latest'')"
    by (simp add: parse_eval)
  then obtain args where run: "parseArgs now1 now2 e ?argv = Inr args"
    using parseArgs_returns by blast
  then obtain os where
    "\<forall>k. k \<notin> {''os'', ''name'', ''password''} \<longrightarrow>
       args k = resolve_preset (foldl apply_arg (initial_args now1) (drop 2 ?argv)) k"
    by (rule parseArgs_fields)
  then have "args ''resourceGroup'' = Some (Str (''vm-rg-'' @ number_toString now1))"
    "args ''location'' = Some (Str ''northeurope'')"
    by (simp_all add: parse_eval)
  with run show ?thesis by blast
qed

text \<open>
  Claim C6, as amended. Two runs of argument resolution on the same tokens, at any
  clock readings and with any random sources, return records that agree on every
  field but \<open>resourceGroup\<close>, \<open>name\<close> and \<open>password\<close>, and on each of those three that a
  token supplies; when tokens supply all three, the two runs return the same.
\<close>

theorem resolution_up_to_clock_and_randomness:
  "(parseArgs now1 now2 e argv = Inr args \<and> parseArgs now1' now2' e' argv = Inr args'
      \<longrightarrow> (\<forall>k. k \<notin> {''resourceGroup'', ''name'', ''password''} \<or> supplied k argv
                 \<longrightarrow> args k = args' k))
   \<and> (supplied ''name'' argv \<and> supplied ''resourceGroup'' argv \<and> supplied ''password'' argv
      \<longrightarrow> parseArgs now1 now2 e argv = parseArgs now1' now2' e' argv)"
proof (intro conjI impI allI)
  fix k
  assume "parseArgs now1 now2 e argv = Inr args \<and> parseArgs now1' now2' e' argv = Inr args'"
    and "k \<notin> {''resourceGroup'', ''name'', ''password''} \<or> supplied k argv"
  then show "args k = args' k" by (blast intro: fields_agree)
next
  assume "supplied ''name'' argv \<and> supplied ''resourceGroup'' argv \<and> supplied ''password'' argv"
  then show "parseArgs now1 now2 e argv = parseArgs now1' now2' e' argv"
    by (blast intro: all_supplied_equal)
qed

theorem resolution_up_to_clock_and_randomness_witness:
  "parseArgs 1700000000000 1700000000001 (\<lambda>i. i)
       [''node'', ''create-az-vm.js'', ''--name=vm1'', ''--resourceGroup=rg1'', ''--password=Secret1!'']
     = parseArgs 1800000000000 1800000000001 (\<lambda>i. 7 * i)
       [''node'', ''create-az-vm.js'', ''--name=vm1'', ''--resourceGroup=rg1'', ''--password=Secret1!'']
   \<and> (\<exists>args args'.
         parseArgs 1700000000000 1700000000001 (\<lambda>i. i) [''node'', ''create-az-vm.js''] = Inr args
       \<and> parseArgs 1800000000000 1800000000001 (\<lambda>i. 7 * i) [''node'', ''create-az-vm.js''] = Inr args'
       \<and> args ''location'' = args' ''location'')"
proof -
  let ?argv = "[''node'', ''create-az-vm.js'', ''--name=vm1'', ''--resourceGroup=rg1'',
                ''--password=Secret1!'']"
  have s: "supplied ''name'' ?argv \<and> supplied ''resourceGroup'' ?argv \<and> supplied ''password'' ?argv"
    by (simp add: supplied_def flag_of_def startsWith_def)
  obtain args where a: "parseArgs 1700000000000 1700000000001 (\<lambda>i. i) [''node'', ''create-az-vm.js'']
       = Inr args"
    using default_run by blast
  obtain args' where b: "parseArgs 1800000000000 1800000000001 (\<lambda>i. 7 * i) [''node'', ''create-az-vm.js'']
       = Inr args'"
    using default_run by blast
  note fields = resolution_up_to_clock_and_randomness
    [of 1700000000000 1700000000001 "\<lambda>i. i" "[''node'', ''create-az-vm.js'']" args
        1800000000000 1800000000001 "\<lambda>i. 7 * i" args', THEN conjunct1, rule_format]
  have loc: "args ''location'' = args' ''location''"
  proof (rule fields)
    show "parseArgs 1700000000000 1700000000001 (\<lambda>i. i) [''node'', ''create-az-vm.js''] = Inr args
      \<and> parseArgs 1800000000000 1800000000001 (\<lambda>i. 7 * i) [''node'', ''create-az-vm.js'']
          = Inr args'"
      using a b by (rule conjI)
    show "''location'' \<notin> {''resourceGroup'', ''name'', ''password''}
            \<or> supplied ''location'' [''node'', ''create-az-vm.js'']"
      by simp
  qed
  note whole = resolution_up_to_clock_and_randomness
    [of 1700000000000 1700000000001 "\<lambda>i. i" ?argv args
        1800000000000 1800000000001 "\<lambda>i. 7 * i" args', THEN conjunct2, rule_format]
  have eq: "parseArgs 1700000000000 1700000000001 (\<lambda>i. i) ?argv
            = parseArgs 1800000000000 1800000000001 (\<lambda>i. 7 * i) ?argv"
    using s by (rule whole)
  from a b loc have "\<exists>args args'.
         parseArgs 1700000000000 1700000000001 (\<lambda>i. i) [''node'', ''create-az-vm.js''] = Inr args
       \<and> parseArgs 1800000000000 1800000000001 (\<lambda>i. 7 * i) [''node'', ''create-az-vm.js''] = Inr args'
       \<and> args ''location'' = args' ''location''"
    by (intro exI conjI)
  with eq show ?thesis by (rule conjI)
qed

text \<open>
  The claim as it was stated fails: two runs on the same tokens (none), one
  millisecond apart, return different records, since the default resource group is
  named after the clock.
\<close>

theorem same_tokens_different_configuration:
  "parseArgs 1700000000000 1700000000000 (\<lambda>i. i) [''node'', ''create-az-vm.js'']
     \<noteq> parseArgs 1700000000001 1700000000001 (\<lambda>i. i) [''node'', ''create-az-vm.js'']"
proof
  assume eq: "parseArgs 1700000000000 1700000000000 (\<lambda>i. i) [''node'', ''create-az-vm.js'']
     = parseArgs 1700000000001 1700000000001 (\<lambda>i. i) [''node'', ''create-az-vm.js'']"
  obtain args where a: "parseArgs 1700000000000 1700000000000 (\<lambda>i. i) [''node'', ''create-az-vm.js'']
       = Inr args" "args ''resourceGroup'' = Some (Str (''vm-rg-'' @ number_toString 1700000000000))"
    using default_run by blast
  obtain args' where b: "parseArgs 1700000000001 1700000000001 (\<lambda>i. i) [''node'', ''create-az-vm.js'']
       = Inr args'" "args' ''resourceGroup'' = Some (Str (''vm-rg-'' @ number_toString 1700000000001))"
    using default_run by blast
  from eq a(1) b(1) have "args = args'" by simp
  with a(2) b(2) have "number_toString 1700000000000 = number_toString 1700000000001" by simp
  then show False
    by (simp add: number_toString_def digits_of.simps digit_char_def)
qed

section \<open>The run of the script\<close>

lemma exec_trace: "snd (exec az c) = [Call c]"
  by (simp add: exec_def split: outcome.splits)

lemma exec_traceD: "exec az c = (r, t) \<Longrightarrow> t = [Call c]"
  using exec_trace [of az c] by simp

lemma exec_failed: "az c = Failed [] msg \<Longrightarrow> fst (exec az c) = Inl (ExecError msg)"
  by (simp add: exec_def)

lemma exec_swallows:
  "az c = Failed out msg \<Longrightarrow> out \<noteq> [] \<Longrightarrow> exec az c = (Inr (trim out), [Call c])"
  by (simp add: exec_def)

lemma exec_Inl: "fst (exec az c) = Inl err \<Longrightarrow> \<exists>msg. az c = Failed [] msg"
  by (auto simp: exec_def split: outcome.splits if_splits)

lemma not_cleanup_create [simp]:
  "\<not> startsWith (vm_create_command args) ''az group delete''"
  "startsWith (cleanup_command args) ''az group delete''"
  by (simp_all add: startsWith_def vm_create_command_def cleanup_command_def Let_def)

lemma checkAzureCli_trace:
  "snd (checkAzureCli az) =
     Call ''az --version''
       # (if fst (checkAzureCli az) then [] else [ErrorLine ''Azure CLI is not installed.''])"
  by (simp add: checkAzureCli_def exec_def split: outcome.splits)

lemma checkAzureLogin_trace:
  "snd (checkAzureLogin az parse) =
     Call ''az account show''
       # (if fst (checkAzureLogin az parse) then [] else [ErrorLine ''Not logged in to Azure.''])"
  by (simp add: checkAzureLogin_def exec_def Let_def split: outcome.splits option.splits sum.splits)

lemma createResourceGroup_trace:
  "\<exists>l. snd (createResourceGroup az args) =
     Call (''az group create --name '' @ interpolate (args ''resourceGroup'')
             @ '' --location '' @ interpolate (args ''location''))
       # (if fst (createResourceGroup az args) then [] else [ErrorLine l])"
  by (simp add: createResourceGroup_def exec_def split: outcome.splits)

lemma createVM_trace:
  "\<exists>l. snd (createVM az parse args) = [Call (vm_create_command args)]
       \<or> snd (createVM az parse args) = [Call (vm_create_command args), ErrorLine l]
          \<and> fst (createVM az parse args) = JNull"
  by (simp add: createVM_def exec_def split: outcome.splits option.splits)

text \<open>The run, stage by stage.\<close>

lemma program_stages:
  "program az parse now1 now2 e argv =
     (if ''--help'' \<in> set argv then (0, [])
      else if \<not> fst (checkAzureCli az) then (1, snd (checkAzureCli az))
      else if \<not> fst (checkAzureLogin az parse)
        then (1, snd (checkAzureCli az) @ snd (checkAzureLogin az parse))
      else case parseArgs now1 now2 e argv of
        Inl err \<Rightarrow>
          (1, snd (checkAzureCli az) @ snd (checkAzureLogin az parse)
                @ [ErrorLine (''Unexpected error: '' @ message err)])
      | Inr args \<Rightarrow>
          if \<not> fst (createResourceGroup az args)
          then (1, snd (checkAzureCli az) @ snd (checkAzureLogin az parse)
                     @ snd (createResourceGroup az args))
          else if json_truthy (fst (createVM az parse args))
          then (0, snd (checkAzureCli az) @ snd (checkAzureLogin az parse)
                     @ snd (createResourceGroup az args) @ snd (createVM az parse args))
          else (1, snd (checkAzureCli az) @ snd (checkAzureLogin az parse)
                     @ snd (createResourceGroup az args) @ snd (createVM az parse args)
                     @ Call (cleanup_command args)
                       # (case fst (exec az (cleanup_command args)) of
                            Inl err \<Rightarrow> [ErrorLine (''Unexpected error: '' @ message err)]
                          | Inr out \<Rightarrow> [])))"
  by (auto simp: program_def main_def split: prod.splits sum.splits dest: exec_traceD)

lemma no_cleanup_before:
  "filter is_cleanup (snd (checkAzureCli az)) = []"
  "filter is_cleanup (snd (checkAzureLogin az parse)) = []"
  "filter is_cleanup (snd (createResourceGroup az args)) = []"
  "filter is_cleanup (snd (createVM az parse args)) = []"
proof -
  show "filter is_cleanup (snd (checkAzureCli az)) = []"
    by (simp add: checkAzureCli_trace startsWith_def)
  show "filter is_cleanup (snd (checkAzureLogin az parse)) = []"
    by (simp add: checkAzureLogin_trace startsWith_def)
  show "filter is_cleanup (snd (createResourceGroup az args)) = []"
    using createResourceGroup_trace [of az args] by (auto simp: startsWith_def)
  show "filter is_cleanup (snd (createVM az parse args)) = []"
    using createVM_trace [of az parse args] by auto
qed

lemma error_lines_append [simp]: "error_lines (xs @ ys) = error_lines xs @ error_lines ys"
  by (induction xs rule: error_lines.induct) simp_all

text \<open>A stage that ran a command which failed without output fails and reports.\<close>

lemma checkAzureCli_failed:
  assumes "az c = Failed [] msg" and "Call c \<in> set (snd (checkAzureCli az))"
  shows "\<not> fst (checkAzureCli az) \<and> error_lines (snd (checkAzureCli az)) \<noteq> []"
proof -
  from assms(2) have "c = ''az --version''"
    by (simp add: checkAzureCli_trace split: if_splits)
  with assms(1) show ?thesis by (simp add: checkAzureCli_def exec_def)
qed

lemma checkAzureLogin_failed:
  assumes "az c = Failed [] msg" and "Call c \<in> set (snd (checkAzureLogin az parse))"
  shows "\<not> fst (checkAzureLogin az parse) \<and> error_lines (snd (checkAzureLogin az parse)) \<noteq> []"
proof -
  from assms(2) have "c = ''az account show''"
    by (simp add: checkAzureLogin_trace split: if_splits)
  with assms(1) show ?thesis by (simp add: checkAzureLogin_def exec_def)
qed

lemma createResourceGroup_failed:
  assumes "az c = Failed [] msg" and "Call c \<in> set (snd (createResourceGroup az args))"
  shows "\<not> fst (createResourceGroup az args)
         \<and> error_lines (snd (createResourceGroup az args)) \<noteq> []"
proof -
  from assms(2) createResourceGroup_trace [of az args]
  have "c = ''az group create --name '' @ interpolate (args ''resourceGroup'')
             @ '' --location '' @ interpolate (args ''location'')"
    by (auto split: if_splits)
  with assms(1) show ?thesis by (simp add: createResourceGroup_def exec_def)
qed

lemma createVM_failed_reports:
  assumes "az c = Failed [] msg" and "Call c \<in> set (snd (createVM az parse args))"
  shows "\<not> json_truthy (fst (createVM az parse args))
         \<and> error_lines (snd (createVM az parse args)) \<noteq> []"
proof -
  from assms(2) createVM_trace [of az parse args]
  have "c = vm_create_command args" by auto
  with assms(1) show ?thesis by (simp add: createVM_def exec_def)
qed

lemma stage_error_lines:
  "\<not> fst (checkAzureCli az) \<Longrightarrow> error_lines (snd (checkAzureCli az)) \<noteq> []"
  "\<not> fst (checkAzureLogin az parse) \<Longrightarrow> error_lines (snd (checkAzureLogin az parse)) \<noteq> []"
  "\<not> fst (createResourceGroup az args) \<Longrightarrow> error_lines (snd (createResourceGroup az args)) \<noteq> []"
proof -
  show "\<not> fst (checkAzureCli az) \<Longrightarrow> error_lines (snd (checkAzureCli az)) \<noteq> []"
    by (simp add: checkAzureCli_trace)
  show "\<not> fst (checkAzureLogin az parse) \<Longrightarrow> error_lines (snd (checkAzureLogin az parse)) \<noteq> []"
    by (simp add: checkAzureLogin_trace)
  show "\<not> fst (createResourceGroup az args)
          \<Longrightarrow> error_lines (snd (createResourceGroup az args)) \<noteq> []"
    using createResourceGroup_trace [of az args] by auto
qed

lemmas run_eval =
  checkAzureCli_def checkAzureLogin_def createResourceGroup_def createVM_def exec_def
  example_cli_def example_parse_def trim_def is_space_def cleanup_command_def
  vm_create_command_def escapedPassword_def replace_all_def startsWith_def

lemma example_resolution:
  "parseArgs 1700000000000 1700000000001 (\<lambda>i. i) example_argv = Inr example_args"
  by (simp add: parseArgs_def example_argv_def example_args_def parse_eval lower_eval)

lemma example_fields:
  "interpolate (example_args ''resourceGroup'') = ''rg1''"
  "interpolate (example_args ''location'') = ''northeurope''"
  by (simp_all add: example_args_def initial_args_def)

lemma example_no_help: "''--help'' \<notin> set example_argv"
  by (simp add: example_argv_def)

lemma example_run_success:
  "program (example_cli []) example_parse 1700000000000 1700000000001 (\<lambda>i. i) example_argv
     = (0, [Call ''az --version'', Call ''az account show'',
            Call ''az group create --name rg1 --location northeurope'',
            Call (vm_create_command example_args)])"
  by (simp add: program_def main_def example_resolution example_no_help example_fields run_eval)

lemma example_run_vm_failure:
  "program (example_cli [(''az vm create'', [])]) example_parse
       1700000000000 1700000000001 (\<lambda>i. i) example_argv
     = (1, [Call ''az --version'', Call ''az account show'',
            Call ''az group create --name rg1 --location northeurope'',
            Call (vm_create_command example_args),
            ErrorLine ''Failed to create VM: Command failed'',
            Call ''az group delete --name rg1 --yes --no-wait''])"
  by (simp add: program_def main_def example_resolution example_no_help example_fields run_eval)

lemma example_run_vm_and_cleanup_failure:
  "program (example_cli [(''az vm create'', []), (''az group delete'', [])]) example_parse
       1700000000000 1700000000001 (\<lambda>i. i) example_argv
     = (1, [Call ''az --version'', Call ''az account show'',
            Call ''az group create --name rg1 --location northeurope'',
            Call (vm_create_command example_args),
            ErrorLine ''Failed to create VM: Command failed'',
            Call ''az group delete --name rg1 --yes --no-wait'',
            ErrorLine ''Unexpected error: Command failed''])"
  by (simp add: program_def main_def example_resolution example_no_help example_fields run_eval)

lemma example_run_swallowed_failure:
  "program (example_cli [(''az group create'', ''partial'')]) example_parse
       1700000000000 1700000000001 (\<lambda>i. i) example_argv
     = (0, [Call ''az --version'', Call ''az account show'',
            Call ''az group create --name rg1 --location northeurope'',
            Call (vm_create_command example_args)])"
  by (simp add: program_def main_def example_resolution example_no_help example_fields run_eval)

text \<open>The stages of provisioning, read off the outcomes of the commands.\<close>

lemma createResourceGroup_ok_iff:
  assumes "args ''resourceGroup'' = Some (Str rg)" and "args ''location'' = Some (Str loc)"
  shows "fst (createResourceGroup az args)
           = (\<not> silent_failure (az (''az group create --name '' @ rg @ '' --location '' @ loc)))"
  using assms
  by (cases "az (''az group create --name '' @ rg @ '' --location '' @ loc)")
     (simp_all add: createResourceGroup_def exec_def)

lemma createResourceGroup_call:
  assumes "args ''resourceGroup'' = Some (Str rg)" and "args ''location'' = Some (Str loc)"
  shows "Call (''az group create --name '' @ rg @ '' --location '' @ loc)
           \<in> set (snd (createResourceGroup az args))"
  using assms createResourceGroup_trace [of az args] by auto

lemma createVM_falsy_iff:
  "(\<not> json_truthy (fst (createVM az parse args)))
     = (silent_failure (az (vm_create_command args))
        \<or> unusable_output parse (az (vm_create_command args)))"
  by (cases "az (vm_create_command args)")
     (auto simp: createVM_def exec_def unusable_output_def split: option.splits)

lemma cleanup_command_text:
  "args ''resourceGroup'' = Some (Str rg)
     \<Longrightarrow> cleanup_command args = ''az group delete --name '' @ rg @ '' --yes --no-wait''"
  by (simp add: cleanup_command_def)

lemma example_checks:
  "fst (checkAzureCli (example_cli [(''az vm create'', out)]))"
  "fst (checkAzureLogin (example_cli [(''az vm create'', out)]) example_parse)"
  "fst (checkAzureCli (example_cli [(''az vm create'', []), (''az group delete'', [])]))"
  "fst (checkAzureLogin (example_cli [(''az vm create'', []), (''az group delete'', [])])
         example_parse)"
  "fst (checkAzureCli (example_cli []))"
  "fst (checkAzureLogin (example_cli []) example_parse)"
  by (simp_all add: run_eval)

lemma example_group:
  "example_args ''resourceGroup'' = Some (Str ''rg1'')"
  "example_args ''location'' = Some (Str ''northeurope'')"
  by (simp_all add: example_args_def initial_args_def)

lemma example_outcomes:
  "example_cli [(''az vm create'', out)] ''az group create --name rg1 --location northeurope''
     = Exited []"
  "example_cli [(''az vm create'', out)] (vm_create_command example_args)
     = Failed out ''Command failed''"
  "example_cli [(''az vm create'', []), (''az group delete'', [])]
       ''az group create --name rg1 --location northeurope'' = Exited []"
  "example_cli [(''az vm create'', []), (''az group delete'', [])]
       (vm_create_command example_args) = Failed [] ''Command failed''"
  "example_cli [] ''az group create --name rg1 --location northeurope'' = Exited []"
  "example_cli [] (vm_create_command example_args) = Exited ''VM''"
  by (simp_all add: example_cli_def vm_create_command_def startsWith_def)

lemma example_vm_output_usable: "\<not> unusable_output example_parse (Exited ''VM'')"
  by (simp add: unusable_output_def example_parse_def trim_def is_space_def)

lemma example_run_swallowed_vm_failure:
  "program (example_cli [(''az vm create'', ''VM'')]) example_parse
       1700000000000 1700000000001 (\<lambda>i. i) example_argv
     = (0, [Call ''az --version'', Call ''az account show'',
            Call ''az group create --name rg1 --location northeurope'',
            Call (vm_create_command example_args)])"
  by (simp add: program_def main_def example_resolution example_no_help example_fields run_eval)

lemma example_run_cleanup_after_failed_group:
  "program (example_cli [(''az group create'', ''partial''), (''az vm create'', [])]) example_parse
       1700000000000 1700000000001 (\<lambda>i. i) example_argv
     = (1, [Call ''az --version'', Call ''az account show'',
            Call ''az group create --name rg1 --location northeurope'',
            Call (vm_create_command example_args),
            ErrorLine ''Failed to create VM: Command failed'',
            Call ''az group delete --name rg1 --yes --no-wait''])"
  by (simp add: program_def main_def example_resolution example_no_help example_fields run_eval)

text \<open>
  Claim C8, as amended. On a run that passes both checks and resolves its arguments,
  with resource group \<open>rg\<close>: when the group command did not fail silently and the VM
  command failed silently or left unusable output, the run issues exactly one cleanup
  call, \<^verbatim>\<open>az group delete --name rg --yes --no-wait\<close>, for the group it asked to
  create, and ends with status 1 whatever the command line tool answers to that call.
  Otherwise it issues no cleanup call, and ends with status 1 when the group command
  failed silently and with status 0 when the VM command left usable output, also when
  that command had failed. A run that stops before provisioning (\<^verbatim>\<open>--help\<close>, a
  failed check, an error in argument resolution) issues no cleanup call.
\<close>

theorem cleanup_after_vm_creation_failure:
  "(''--help'' \<in> set argv \<or> \<not> fst (checkAzureCli az) \<or> \<not> fst (checkAzureLogin az parse)
      \<or> parseArgs now1 now2 e argv = Inl err
     \<longrightarrow> filter is_cleanup (snd (program az parse now1 now2 e argv)) = [])
   \<and> (''--help'' \<notin> set argv \<and> fst (checkAzureCli az) \<and> fst (checkAzureLogin az parse)
      \<and> parseArgs now1 now2 e argv = Inr args
      \<and> args ''resourceGroup'' = Some (Str rg) \<and> args ''location'' = Some (Str loc)
     \<longrightarrow>
      (if \<not> silent_failure (az (''az group create --name '' @ rg @ '' --location '' @ loc))
          \<and> (silent_failure (az (vm_create_command args))
               \<or> unusable_output parse (az (vm_create_command args)))
       then filter is_cleanup (snd (program az parse now1 now2 e argv))
              = [Call (''az group delete --name '' @ rg @ '' --yes --no-wait'')]
            \<and> Call (''az group create --name '' @ rg @ '' --location '' @ loc)
                \<in> set (snd (program az parse now1 now2 e argv))
            \<and> fst (program az parse now1 now2 e argv) = 1
       else filter is_cleanup (snd (program az parse now1 now2 e argv)) = []
            \<and> fst (program az parse now1 now2 e argv)
                = (if silent_failure (az (''az group create --name '' @ rg @ '' --location '' @ loc))
                   then 1 else 0)))"
proof (rule conjI; rule impI)
  assume "''--help'' \<in> set argv \<or> \<not> fst (checkAzureCli az) \<or> \<not> fst (checkAzureLogin az parse)
      \<or> parseArgs now1 now2 e argv = Inl err"
  then show "filter is_cleanup (snd (program az parse now1 now2 e argv)) = []"
    by (elim disjE) (simp_all add: program_stages no_cleanup_before)
next
  let ?G = "az (''az group create --name '' @ rg @ '' --location '' @ loc)"
  let ?V = "az (vm_create_command args)"
  assume h: "''--help'' \<notin> set argv \<and> fst (checkAzureCli az) \<and> fst (checkAzureLogin az parse)
      \<and> parseArgs now1 now2 e argv = Inr args
      \<and> args ''resourceGroup'' = Some (Str rg) \<and> args ''location'' = Some (Str loc)"
  then have nohelp: "''--help'' \<notin> set argv" and cli: "fst (checkAzureCli az)"
    and login: "fst (checkAzureLogin az parse)"
    and run: "parseArgs now1 now2 e argv = Inr args"
    and rg: "args ''resourceGroup'' = Some (Str rg)" and loc: "args ''location'' = Some (Str loc)"
    by simp_all
  have group: "fst (createResourceGroup az args) = (\<not> silent_failure ?G)"
    using rg loc by (rule createResourceGroup_ok_iff)
  have vm: "json_truthy (fst (createVM az parse args))
              = (\<not> (silent_failure ?V \<or> unusable_output parse ?V))"
    using createVM_falsy_iff [of az parse args] by blast
  have del: "cleanup_command args = ''az group delete --name '' @ rg @ '' --yes --no-wait''"
    using rg by (rule cleanup_command_text)
  have call: "Call (''az group create --name '' @ rg @ '' --location '' @ loc)
                \<in> set (snd (createResourceGroup az args))"
    using rg loc by (rule createResourceGroup_call)
  have stages: "program az parse now1 now2 e argv =
     (if silent_failure ?G
      then (1, snd (checkAzureCli az) @ snd (checkAzureLogin az parse)
                 @ snd (createResourceGroup az args))
      else if \<not> (silent_failure ?V \<or> unusable_output parse ?V)
      then (0, snd (checkAzureCli az) @ snd (checkAzureLogin az parse)
                 @ snd (createResourceGroup az args) @ snd (createVM az parse args))
      else (1, snd (checkAzureCli az) @ snd (checkAzureLogin az parse)
                 @ snd (createResourceGroup az args) @ snd (createVM az parse args)
                 @ Call (cleanup_command args)
                   # (case fst (exec az (cleanup_command args)) of
                        Inl err \<Rightarrow> [ErrorLine (''Unexpected error: '' @ message err)]
                      | Inr out \<Rightarrow> [])))"
    using nohelp cli login run group vm by (simp add: program_stages)
  have tail: "filter is_cleanup
                (case fst (exec az (cleanup_command args)) of
                   Inl err \<Rightarrow> [ErrorLine (''Unexpected error: '' @ message err)]
                 | Inr out \<Rightarrow> []) = []"
    by (simp split: sum.splits)
  show "if \<not> silent_failure ?G \<and> (silent_failure ?V \<or> unusable_output parse ?V)
       then filter is_cleanup (snd (program az parse now1 now2 e argv))
              = [Call (''az group delete --name '' @ rg @ '' --yes --no-wait'')]
            \<and> Call (''az group create --name '' @ rg @ '' --location '' @ loc)
                \<in> set (snd (program az parse now1 now2 e argv))
            \<and> fst (program az parse now1 now2 e argv) = 1
       else filter is_cleanup (snd (program az parse now1 now2 e argv)) = []
            \<and> fst (program az parse now1 now2 e argv) = (if silent_failure ?G then 1 else 0)"
  proof (cases "silent_failure ?G")
    case True
    then show ?thesis by (simp add: stages no_cleanup_before)
  next
    case g: False
    show ?thesis
    proof (cases "silent_failure ?V \<or> unusable_output parse ?V")
      case False
      with g show ?thesis by (simp add: stages no_cleanup_before)
    next
      case True
      have c: "is_cleanup (Call (cleanup_command args))" by simp
      from g True have p: "program az parse now1 now2 e argv =
           (1, snd (checkAzureCli az) @ snd (checkAzureLogin az parse)
                 @ snd (createResourceGroup az args) @ snd (createVM az parse args)
                 @ Call (cleanup_command args)
                   # (case fst (exec az (cleanup_command args)) of
                        Inl err \<Rightarrow> [ErrorLine (''Unexpected error: '' @ message err)]
                      | Inr out \<Rightarrow> []))"
        by (simp add: stages)
      have f: "filter is_cleanup (snd (program az parse now1 now2 e argv))
                 = [Call (cleanup_command args)]"
        unfolding p by (simp add: no_cleanup_before tail c del: is_cleanup.simps)
      have m: "Call (''az group create --name '' @ rg @ '' --location '' @ loc)
                \<in> set (snd (program az parse now1 now2 e argv))"
        unfolding p using call by simp
      have x: "fst (program az parse now1 now2 e argv) = 1" unfolding p by simp
      from g True f m x show ?thesis unfolding del by simp
    qed
  qed
qed

theorem cleanup_after_vm_creation_failure_witness:
  "filter is_cleanup (snd (program (example_cli [(''az vm create'', [])]) example_parse
       1700000000000 1700000000001 (\<lambda>i. i) example_argv))
     = [Call ''az group delete --name rg1 --yes --no-wait'']
   \<and> Call ''az group create --name rg1 --location northeurope''
       \<in> set (snd (program (example_cli [(''az vm create'', [])]) example_parse
             1700000000000 1700000000001 (\<lambda>i. i) example_argv))
   \<and> fst (program (example_cli [(''az vm create'', [])]) example_parse
       1700000000000 1700000000001 (\<lambda>i. i) example_argv) = 1
   \<and> filter is_cleanup (snd (program
       (example_cli [(''az vm create'', []), (''az group delete'', [])]) example_parse
       1700000000000 1700000000001 (\<lambda>i. i) example_argv))
     = [Call ''az group delete --name rg1 --yes --no-wait'']
   \<and> fst (program (example_cli [(''az vm create'', []), (''az group delete'', [])]) example_parse
       1700000000000 1700000000001 (\<lambda>i. i) example_argv) = 1
   \<and> filter is_cleanup (snd (program (example_cli []) example_parse
       1700000000000 1700000000001 (\<lambda>i. i) example_argv)) = []
   \<and> fst (program (example_cli []) example_parse
       1700000000000 1700000000001 (\<lambda>i. i) example_argv) = 0
   \<and> filter is_cleanup (snd (program (example_cli []) example_parse
       1700000000000 1700000000001 (\<lambda>i. i) [''node'', ''create-az-vm.js'', ''--help''])) = []"
proof -
  note facts = example_no_help example_checks example_resolution example_group
    example_outcomes example_vm_output_usable
  from cleanup_after_vm_creation_failure
    [of example_argv "example_cli [(''az vm create'', [])]" example_parse
        1700000000000 1700000000001 "\<lambda>i. i" _ example_args "''rg1''" "''northeurope''"]
  have 1: "filter is_cleanup (snd (program (example_cli [(''az vm create'', [])]) example_parse
         1700000000000 1700000000001 (\<lambda>i. i) example_argv))
       = [Call ''az group delete --name rg1 --yes --no-wait'']
     \<and> Call ''az group create --name rg1 --location northeurope''
       \<in> set (snd (program (example_cli [(''az vm create'', [])]) example_parse
             1700000000000 1700000000001 (\<lambda>i. i) example_argv))
     \<and> fst (program (example_cli [(''az vm create'', [])]) example_parse
         1700000000000 1700000000001 (\<lambda>i. i) example_argv) = 1"
    by (simp add: facts)
  from cleanup_after_vm_creation_failure
    [of example_argv "example_cli [(''az vm create'', []), (''az group delete'', [])]"
        example_parse 1700000000000 1700000000001 "\<lambda>i. i" _ example_args "''rg1''"
        "''northeurope''"]
  have 2: "filter is_cleanup (snd (program
         (example_cli [(''az vm create'', []), (''az group delete'', [])]) example_parse
         1700000000000 1700000000001 (\<lambda>i. i) example_argv))
       = [Call ''az group delete --name rg1 --yes --no-wait'']
     \<and> fst (program (example_cli [(''az vm create'', []), (''az group delete'', [])]) example_parse
         1700000000000 1700000000001 (\<lambda>i. i) example_argv) = 1"
    by (simp add: facts)
  from cleanup_after_vm_creation_failure
    [of example_argv "example_cli []" example_parse 1700000000000 1700000000001 "\<lambda>i. i" _
        example_args "''rg1''" "''northeurope''"]
  have 3: "filter is_cleanup (snd (program (example_cli []) example_parse
         1700000000000 1700000000001 (\<lambda>i. i) example_argv)) = []
     \<and> fst (program (example_cli []) example_parse
         1700000000000 1700000000001 (\<lambda>i. i) example_argv) = 0"
    by (simp add: facts)
  from cleanup_after_vm_creation_failure
    [of "[''node'', ''create-az-vm.js'', ''--help'']" "example_cli []" example_parse
        1700000000000 1700000000001 "\<lambda>i. i"]
  have 4: "filter is_cleanup (snd (program (example_cli []) example_parse
         1700000000000 1700000000001 (\<lambda>i. i) [''node'', ''create-az-vm.js'', ''--help''])) = []"
    by simp
  from 1 2 3 4 show ?thesis by simp
qed

text \<open>
  The claim as it was stated fails both ways. The group command succeeds and the VM
  command fails after writing a VM description to its standard output: the run issues
  no cleanup call and ends with status 0. And the group command fails after writing to
  its standard output, then the VM command fails silently: a cleanup call is issued,
  though no group creation succeeded.
\<close>

theorem failed_vm_creation_without_cleanup:
  "example_cli [(''az vm create'', ''VM'')] ''az group create --name rg1 --location northeurope''
     = Exited []
   \<and> example_cli [(''az vm create'', ''VM'')] (vm_create_command example_args)
     = Failed ''VM'' ''Command failed''
   \<and> program (example_cli [(''az vm create'', ''VM'')]) example_parse
         1700000000000 1700000000001 (\<lambda>i. i) example_argv
     = (0, [Call ''az --version'', Call ''az account show'',
            Call ''az group create --name rg1 --location northeurope'',
            Call (vm_create_command example_args)])
   \<and> filter is_cleanup (snd (program (example_cli [(''az vm create'', ''VM'')]) example_parse
         1700000000000 1700000000001 (\<lambda>i. i) example_argv)) = []
   \<and> example_cli [(''az group create'', ''partial''), (''az vm create'', [])]
         ''az group create --name rg1 --location northeurope''
     = Failed ''partial'' ''Command failed''
   \<and> filter is_cleanup (snd (program
         (example_cli [(''az group create'', ''partial''), (''az vm create'', [])]) example_parse
         1700000000000 1700000000001 (\<lambda>i. i) example_argv))
     = [Call ''az group delete --name rg1 --yes --no-wait'']"
proof -
  have a: "example_cli [(''az group create'', ''partial''), (''az vm create'', [])]
         ''az group create --name rg1 --location northeurope''
     = Failed ''partial'' ''Command failed''"
    by (simp add: example_cli_def startsWith_def)
  have b: "filter is_cleanup (snd (program (example_cli [(''az vm create'', ''VM'')]) example_parse
         1700000000000 1700000000001 (\<lambda>i. i) example_argv)) = []"
    by (simp add: example_run_swallowed_vm_failure startsWith_def vm_create_command_def)
  have c: "filter is_cleanup (snd (program
         (example_cli [(''az group create'', ''partial''), (''az vm create'', [])]) example_parse
         1700000000000 1700000000001 (\<lambda>i. i) example_argv))
     = [Call ''az group delete --name rg1 --yes --no-wait'']"
    by (simp add: example_run_cleanup_after_failed_group startsWith_def vm_create_command_def)
  from example_outcomes(1) [of "''VM''"] example_outcomes(2) [of "''VM''"]
    example_run_swallowed_vm_failure b a c
  show ?thesis by (intro conjI)
qed

text \<open>
  Claim C7, as amended. When a command the run issued failed without writing to its
  standard output, the run ends with status 1 and has written an error line. A failed
  command that did write to its standard output is not an error for \<open>exec\<close>: its
  output, trimmed, is returned as that of a successful command.
\<close>

theorem failures_without_output_are_reported:
  "(Call c \<in> set (snd (program az parse now1 now2 e argv)) \<and> az c = Failed [] msg
      \<longrightarrow> fst (program az parse now1 now2 e argv) = 1
          \<and> error_lines (snd (program az parse now1 now2 e argv)) \<noteq> [])
   \<and> (az c = Failed out msg \<and> out \<noteq> [] \<longrightarrow> exec az c = (Inr (trim out), [Call c]))"
proof (rule conjI; rule impI)
  assume "az c = Failed out msg \<and> out \<noteq> []"
  then show "exec az c = (Inr (trim out), [Call c])" by (simp add: exec_swallows)
next
  assume a: "Call c \<in> set (snd (program az parse now1 now2 e argv)) \<and> az c = Failed [] msg"
  then have c: "Call c \<in> set (snd (program az parse now1 now2 e argv))"
    and f: "az c = Failed [] msg" by simp_all
  note failed = checkAzureCli_failed [of az c msg, OF f]
    checkAzureLogin_failed [of az c msg, OF f]
    createResourceGroup_failed [of az c msg, OF f]
    createVM_failed_reports [of az c msg, OF f]
  show "fst (program az parse now1 now2 e argv) = 1
          \<and> error_lines (snd (program az parse now1 now2 e argv)) \<noteq> []"
  proof (cases "''--help'' \<in> set argv")
    case True
    with c show ?thesis by (simp add: program_stages)
  next
    case nohelp: False
    show ?thesis
    proof (cases "fst (checkAzureCli az)")
      case False
      with nohelp show ?thesis by (simp add: program_stages stage_error_lines)
    next
      case cli: True
      with failed(1) have c1: "Call c \<notin> set (snd (checkAzureCli az))" by blast
      show ?thesis
      proof (cases "fst (checkAzureLogin az parse)")
        case False
        with nohelp cli show ?thesis by (simp add: program_stages stage_error_lines)
      next
        case login: True
        with failed(2) have c2: "Call c \<notin> set (snd (checkAzureLogin az parse))" by blast
        show ?thesis
        proof (cases "parseArgs now1 now2 e argv")
          case (Inl err)
          with nohelp cli login show ?thesis by (simp add: program_stages)
        next
          case (Inr args)
          show ?thesis
          proof (cases "fst (createResourceGroup az args)")
            case False
            with nohelp cli login Inr show ?thesis by (simp add: program_stages stage_error_lines)
          next
            case rg: True
            with failed(3) have c3: "Call c \<notin> set (snd (createResourceGroup az args))" by blast
            show ?thesis
            proof (cases "json_truthy (fst (createVM az parse args))")
              case True
              with failed(4) have "Call c \<notin> set (snd (createVM az parse args))" by blast
              with c c1 c2 c3 nohelp cli login Inr rg True show ?thesis
                by (simp add: program_stages)
            next
              case vm: False
              show ?thesis
              proof (cases "Call c \<in> set (snd (createVM az parse args))")
                case True
                with failed(4) have "error_lines (snd (createVM az parse args)) \<noteq> []" by blast
                with nohelp cli login Inr rg vm show ?thesis
                  by (simp add: program_stages)
              next
                case False
                with c c1 c2 c3 nohelp cli login Inr rg vm
                have "c = cleanup_command args" by (simp add: program_stages)
                with f have "fst (exec az (cleanup_command args)) = Inl (ExecError msg)"
                  by (simp add: exec_failed)
                with nohelp cli login Inr rg vm show ?thesis
                  by (simp add: program_stages)
              qed
            qed
          qed
        qed
      qed
    qed
  qed
qed

theorem failures_without_output_are_reported_witness:
  "fst (program (example_cli [(''az vm create'', []), (''az group delete'', [])]) example_parse
       1700000000000 1700000000001 (\<lambda>i. i) example_argv) = 1
   \<and> error_lines (snd (program (example_cli [(''az vm create'', []), (''az group delete'', [])])
       example_parse 1700000000000 1700000000001 (\<lambda>i. i) example_argv)) \<noteq> []
   \<and> exec (example_cli [(''az group create'', ''partial'')])
         ''az group create --name rg1 --location northeurope''
       = (Inr ''partial'', [Call ''az group create --name rg1 --location northeurope''])"
proof -
  let ?az = "example_cli [(''az vm create'', []), (''az group delete'', [])]"
  let ?del = "''az group delete --name rg1 --yes --no-wait''"
  have "Call ?del \<in> set (snd (program ?az example_parse
          1700000000000 1700000000001 (\<lambda>i. i) example_argv))"
    by (simp add: example_run_vm_and_cleanup_failure)
  moreover have "?az ?del = Failed [] ''Command failed''"
    by (simp add: example_cli_def startsWith_def)
  ultimately have 1: "fst (program ?az example_parse
         1700000000000 1700000000001 (\<lambda>i. i) example_argv) = 1
     \<and> error_lines (snd (program ?az example_parse
         1700000000000 1700000000001 (\<lambda>i. i) example_argv)) \<noteq> []"
    using failures_without_output_are_reported
      [of ?del ?az example_parse 1700000000000 1700000000001 "\<lambda>i. i" example_argv
          "''Command failed''"]
    by blast
  let ?az' = "example_cli [(''az group create'', ''partial'')]"
  let ?rg = "''az group create --name rg1 --location northeurope''"
  have "?az' ?rg = Failed ''partial'' ''Command failed'' \<and> ''partial'' \<noteq> []"
    by (simp add: example_cli_def startsWith_def)
  then have "exec ?az' ?rg = (Inr (trim ''partial''), [Call ?rg])"
    using failures_without_output_are_reported
      [of ?rg ?az' example_parse 1700000000000 1700000000001 "\<lambda>i. i" example_argv
          "''Command failed''" "''partial''"]
    by blast
  then have 2: "exec ?az' ?rg = (Inr ''partial'', [Call ?rg])"
    by (simp add: trim_def is_space_def)
  from 1 2 show ?thesis by simp
qed

text \<open>
  The claim as it was stated fails: when \<^verbatim>\<open>az group create\<close> fails after writing to
  its standard output, the run goes on as if the group had been created, writes no
  error line and ends with status 0.
\<close>

theorem group_creation_failure_swallowed:
  "example_cli [(''az group create'', ''partial'')]
       ''az group create --name rg1 --location northeurope''
     = Failed ''partial'' ''Command failed''
   \<and> Call ''az group create --name rg1 --location northeurope''
       \<in> set (snd (program (example_cli [(''az group create'', ''partial'')]) example_parse
                     1700000000000 1700000000001 (\<lambda>i. i) example_argv))
   \<and> fst (program (example_cli [(''az group create'', ''partial'')]) example_parse
            1700000000000 1700000000001 (\<lambda>i. i) example_argv) = 0
   \<and> error_lines (snd (program (example_cli [(''az group create'', ''partial'')]) example_parse
            1700000000000 1700000000001 (\<lambda>i. i) example_argv)) = []"
  by (simp add: example_run_swallowed_failure) (simp add: example_cli_def startsWith_def)

section \<open>Preset resolution\<close>

lemma loop_image_nonempty:
  "nonempty_string (foldl apply_arg (initial_args now1) toks ''image'')"
  by (rule foldl_apply_arg_nonempty) (simp add: nonempty_string_def initial_args_def)

lemma inherited_not_preset:
  "k \<in> set object_prototype_props \<Longrightarrow> map_of IMAGE_PRESETS k = None"
proof -
  have "\<forall>k \<in> set object_prototype_props. map_of IMAGE_PRESETS k = None"
    by (simp add: object_prototype_props_def IMAGE_PRESETS_def)
  then show "k \<in> set object_prototype_props \<Longrightarrow> map_of IMAGE_PRESETS k = None"
    by blast
qed

lemma preset_identifiers_nonempty:
  "(k, identifier) \<in> set IMAGE_PRESETS \<Longrightarrow> identifier \<noteq> []"
proof -
  have "\<forall>(k, identifier) \<in> set IMAGE_PRESETS. identifier \<noteq> []"
    by (simp add: IMAGE_PRESETS_def)
  then show "(k, identifier) \<in> set IMAGE_PRESETS \<Longrightarrow> identifier \<noteq> []"
    by blast
qed

lemma resolve_preset_image:
  assumes "args ''image'' = Some (Str img)"
  shows "resolve_preset args ''image'' =
           (case map_of IMAGE_PRESETS img of
              Some identifier \<Rightarrow> Some (Str (if identifier = [] then img else identifier))
            | None \<Rightarrow> if img \<in> set object_prototype_props then Some (Inherited img)
                      else Some (Str img))"
  using assms
  by (simp add: resolve_preset_def get_property_def presets_object_def split: option.splits)

text \<open>
  Argument resolution fails exactly when the image, as the tokens left it, is the name
  of a property inherited from \<open>Object.prototype\<close>.
\<close>

lemma parseArgs_fails_iff:
  "(parseArgs now1 now2 e argv = Inl err) =
     (err = TypeError ''image.toLowerCase is not a function''
      \<and> (\<exists>k \<in> set object_prototype_props.
            foldl apply_arg (initial_args now1) (drop 2 argv) ''image'' = Some (Str k)))"
proof -
  let ?l = "foldl apply_arg (initial_args now1) (drop 2 argv)"
  obtain img where img: "?l ''image'' = Some (Str img)"
    using loop_image_nonempty [of now1 "drop 2 argv"] by (auto simp: nonempty_string_def)
  show ?thesis
  proof (cases "img \<in> set object_prototype_props")
    case True
    then have "resolve_preset ?l ''image'' = Some (Inherited img)"
      using img by (simp add: resolve_preset_image inherited_not_preset)
    with True img show ?thesis by (auto simp: parseArgs_Inl_iff)
  next
    case False
    then have "\<exists>s. resolve_preset ?l ''image'' = Some (Str s)"
      using img by (simp add: resolve_preset_image split: option.splits)
    with False img show ?thesis
      by (auto simp: parseArgs_Inl_iff detectOSType_Str simp del: detectOSType.simps)
  qed
qed

text \<open>What resolution does with an image that is, or is not, a preset key.\<close>

lemma preset_resolution:
  assumes "args ''image'' = Some (Str img)"
  shows "(img, identifier) \<in> set IMAGE_PRESETS \<Longrightarrow>
           resolve_preset args = args(''image'' \<mapsto> Str identifier)"
    and "img \<notin> fst ` set IMAGE_PRESETS \<Longrightarrow> img \<notin> set object_prototype_props \<Longrightarrow>
           resolve_preset args = args"
proof -
  assume m: "(img, identifier) \<in> set IMAGE_PRESETS"
  have "distinct (map fst IMAGE_PRESETS)" by (simp add: IMAGE_PRESETS_def)
  from this m have "map_of IMAGE_PRESETS img = Some identifier" by (rule map_of_is_SomeI)
  moreover from m have "identifier \<noteq> []" by (rule preset_identifiers_nonempty)
  ultimately show "resolve_preset args = args(''image'' \<mapsto> Str identifier)"
    using assms by (simp add: resolve_preset_def get_property_def presets_object_def)
next
  assume "img \<notin> fst ` set IMAGE_PRESETS" "img \<notin> set object_prototype_props"
  then have "map_of IMAGE_PRESETS img = None" "img \<notin> set object_prototype_props"
    by (simp_all add: map_of_eq_None_iff)
  then show "resolve_preset args = args"
    using assms by (simp add: resolve_preset_def get_property_def presets_object_def)
qed

text \<open>
  Claim C3 does not hold of the code. The lookup \<^verbatim>\<open>IMAGE_PRESETS[args.image]\<close> also
  finds what the object literal inherits: \<open>toString\<close> is not a key of the preset
  mapping, yet resolution replaces the image \<open>toString\<close> by the inherited method.
  \<open>detectOSType\<close> then throws, and the run ends with status 1 after the login check.
  (\<open>preset_resolution\<close> above is what holds: a preset key is replaced by its
  identifier, and a string that is neither a preset key nor an inherited name is left
  as it is.)
\<close>

theorem inherited_name_replaced:
  "map_of IMAGE_PRESETS ''toString'' = None
   \<and> resolve_preset ((initial_args 1700000000000)(''image'' \<mapsto> Str ''toString'')) ''image''
       = Some (Inherited ''toString'')
   \<and> parseArgs 1700000000000 1700000000001 (\<lambda>i. i)
         [''node'', ''create-az-vm.js'', ''--image=toString'']
       = Inl (TypeError ''image.toLowerCase is not a function'')
   \<and> program (example_cli []) example_parse 1700000000000 1700000000001 (\<lambda>i. i)
         [''node'', ''create-az-vm.js'', ''--image=toString'']
       = (1, [Call ''az --version'', Call ''az account show'',
              ErrorLine ''Unexpected error: image.toLowerCase is not a function''])"
proof -
  have 1: "map_of IMAGE_PRESETS ''toString'' = None" by (simp add: IMAGE_PRESETS_def)
  have 2: "resolve_preset ((initial_args 1700000000000)(''image'' \<mapsto> Str ''toString'')) ''image''
       = Some (Inherited ''toString'')"
    by (simp add: parse_eval)
  have 3: "parseArgs 1700000000000 1700000000001 (\<lambda>i. i)
         [''node'', ''create-az-vm.js'', ''--image=toString'']
       = Inl (TypeError ''image.toLowerCase is not a function'')"
    by (simp add: parseArgs_def parse_eval)
  have 4: "program (example_cli []) example_parse 1700000000000 1700000000001 (\<lambda>i. i)
         [''node'', ''create-az-vm.js'', ''--image=toString'']
       = (1, [Call ''az --version'', Call ''az account show'',
              ErrorLine ''Unexpected error: image.toLowerCase is not a function''])"
    by (simp add: program_def main_def 3 run_eval)
  from 1 2 3 4 show ?thesis by simp
qed

section \<open>Unrecognized and malformed tokens\<close>

text \<open>
  The loop ignores the tokens that are not recognized: for each of the seven keys, it
  leaves the value it would leave without them.
\<close>

lemma loop_ignores_unrecognized:
  assumes "k \<in> set recognized_keys"
  shows "foldl apply_arg args toks k = foldl apply_arg args (filter recognized toks) k"
proof (induction toks arbitrary: args)
  case Nil
  show ?case by simp
next
  case (Cons x xs)
  show ?case
  proof (cases "recognized x")
    case True
    then show ?thesis using Cons.IH by simp
  next
    case False
    with assms have "\<And>v. flag_of x \<noteq> Some (k, v)"
      by (auto simp: recognized_def)
    then have "apply_arg args x k = args k" by (rule apply_arg_other)
    then have "foldl apply_arg (apply_arg args x) (filter recognized xs) k
                 = foldl apply_arg args (filter recognized xs) k"
      by (rule foldl_apply_arg_pointwise)
    with False Cons.IH [of "apply_arg args x"] show ?thesis by simp
  qed
qed

lemma generateSecurePassword_length: "length (generateSecurePassword e) = 16"
proof -
  obtain password e' where r: "password_array e = (password, e')"
    by (cases "password_array e")
  have "mset (generateSecurePassword e) = mset (fst (password_array e))"
    using r by (simp add: generateSecurePassword_def mset_array_sort)
  then have "meets_policy (generateSecurePassword e)"
    using password_array_policy by (rule meets_policy_mset)
  then show ?thesis by (simp add: meets_policy_def)
qed

lemma loop_defaults_nonempty:
  assumes "k \<in> {''location'', ''size'', ''image'', ''resourceGroup'', ''username''}"
  shows "nonempty_string (foldl apply_arg (initial_args now1) toks k)"
proof (rule foldl_apply_arg_nonempty)
  from assms show "nonempty_string (initial_args now1 k)"
    by (auto simp: nonempty_string_def initial_args_def)
qed

lemma loop_null_or_nonempty:
  assumes "k \<in> {''name'', ''password''}"
  shows "foldl apply_arg (initial_args now1) (drop 2 argv) k = Some Null
         \<or> nonempty_string (foldl apply_arg (initial_args now1) (drop 2 argv) k)"
proof (cases "supplied k argv")
  case True
  have "initial_args now1 k \<noteq> None" "k \<noteq> ''__proto__''"
    using assms by (auto simp: initial_args_def)
  with True have "nonempty_string (foldl apply_arg (initial_args now1) (drop 2 argv) k)"
    by (intro foldl_apply_arg_supplied) (simp_all add: supplied_iff)
  then show ?thesis by simp
next
  case False
  then have "foldl apply_arg (initial_args now1) (drop 2 argv) k = initial_args now1 k"
    by (intro foldl_apply_arg_other) (auto simp: supplied_iff)
  moreover have "initial_args now1 k = Some Null"
    using assms by (auto simp: initial_args_def)
  ultimately show ?thesis by simp
qed

lemma resolved_image_nonempty:
  assumes "resolve_preset (foldl apply_arg (initial_args now1) toks) ''image'' = Some (Str s)"
  shows "s \<noteq> []"
proof -
  let ?l = "foldl apply_arg (initial_args now1) toks"
  obtain img where img: "?l ''image'' = Some (Str img)" "img \<noteq> []"
    using loop_defaults_nonempty [of "''image''" now1 toks] by (auto simp: nonempty_string_def)
  show ?thesis
  proof (cases "map_of IMAGE_PRESETS img")
    case None
    with assms img show ?thesis
      by (simp add: resolve_preset_image split: if_splits)
  next
    case (Some preset)
    with assms img show ?thesis
      by (simp add: resolve_preset_image split: if_splits)
  qed
qed

text \<open>When argument resolution returns, every field of the record is a string that is
  not empty.\<close>

lemma configuration_populated:
  assumes run: "parseArgs now1 now2 e argv = Inr args"
    and k: "k \<in> set (''os'' # recognized_keys)"
  shows "nonempty_string (args k)"
proof -
  let ?l = "foldl apply_arg (initial_args now1) (drop 2 argv)"
  from run obtain os where
    os: "detectOSType (resolve_preset ?l ''image'') = Inr os"
    and a1: "args ''os'' = Some (Str os)"
    and a2: "args ''name'' = (if truthy (?l ''name'') then ?l ''name''
                             else Some (Str (default_name os now2)))"
    and a3: "args ''password'' = (if truthy (?l ''password'') then ?l ''password''
                             else Some (Str (generateSecurePassword e)))"
    and a4: "\<forall>k. k \<notin> {''os'', ''name'', ''password''} \<longrightarrow> args k = resolve_preset ?l k"
    by (rule parseArgs_fields)
  from os have osv: "os = ''windows'' \<or> os = ''linux''" by (rule detectOSType_values)
  have "k = ''os'' \<or> k = ''name'' \<or> k = ''password'' \<or> k = ''image''
            \<or> k \<in> {''location'', ''size'', ''resourceGroup'', ''username''}"
    using k by (auto simp: recognized_keys_def)
  then show ?thesis
  proof (elim disjE)
    assume sys: "k = ''os''"
    from osv have "os \<noteq> []" by auto
    with a1 sys show ?thesis by (simp add: nonempty_string_def)
  next
    assume name: "k = ''name''"
    have "default_name os now2 \<noteq> []" by (simp add: default_name_def)
    moreover have "?l ''name'' = Some Null \<or> nonempty_string (?l ''name'')"
      by (rule loop_null_or_nonempty) simp
    ultimately have "nonempty_string (args ''name'')"
      unfolding a2 by (auto simp: nonempty_string_def)
    with name show ?thesis by simp
  next
    assume password: "k = ''password''"
    have "generateSecurePassword e \<noteq> []"
      using generateSecurePassword_length [of e] by auto
    moreover have "?l ''password'' = Some Null \<or> nonempty_string (?l ''password'')"
      by (rule loop_null_or_nonempty) simp
    ultimately have "nonempty_string (args ''password'')"
      unfolding a3 by (auto simp: nonempty_string_def)
    with password show ?thesis by simp
  next
    assume image: "k = ''image''"
    from os obtain s where s: "resolve_preset ?l ''image'' = Some (Str s)"
      using detectOSType_Inr by blast
    then have "s \<noteq> []" by (rule resolved_image_nonempty)
    moreover from a4 have "args ''image'' = resolve_preset ?l ''image''" by simp
    ultimately show ?thesis using s image by (simp add: nonempty_string_def)
  next
    assume other: "k \<in> {''location'', ''size'', ''resourceGroup'', ''username''}"
    then have "k \<notin> {''os'', ''name'', ''password''}" "k \<noteq> ''image''" by auto
    with a4 have "args k = ?l k" by (simp add: resolve_preset_other)
    moreover have "nonempty_string (?l k)"
      using other by (intro loop_defaults_nonempty) auto
    ultimately show ?thesis by simp
  qed
qed

text \<open>
  Claim C9 does not hold of the code for every sequence of tokens. Tokens that are
  not recognized are ignored (\<open>loop_ignores_unrecognized\<close>) and a record that is
  returned is fully populated (\<open>configuration_populated\<close>), but resolution does
  not always return: with an image that names an inherited property it throws a
  \<^verbatim>\<open>TypeError\<close> (\<open>parseArgs_fails_iff\<close> says this is the only way it fails).
\<close>

theorem resolution_throws_on_inherited_name:
  "parseArgs 1700000000000 1700000000001 (\<lambda>i. i)
     [''node'', ''create-az-vm.js'', ''--zone=eu'', ''--size'', ''--image=constructor'']
   = Inl (TypeError ''image.toLowerCase is not a function'')"
  by (simp add: parseArgs_def parse_eval)

end
